theory Spec2Isabelle
  imports Main
begin

section \<open>Tensors and library errors\<close>

text \<open>
  A tensor is what the host numerical library provides: a shape and the elements in
  row-major order. Its elements are taken from a semiring (commutative where a
  statement needs it), so sums and products are exact; floating-point rounding is
  outside this development. An exception of the language or of a library is a value
  of type \<open>error\<close>, and a function that can raise returns \<open>error + 'a\<close>.
\<close>

datatype error =
  TypeError | ValueError | IndexError | ZeroDivisionError | InvalidArgumentError |
  ScopeParamShapeError

record 'a tensor =
  shape :: "nat list"
  data :: "'a list"

definition wf_tensor :: "'a tensor \<Rightarrow> bool" where
  "wf_tensor t = (length (data t) = prod_list (shape t))"

definition bindE :: "error + 'a \<Rightarrow> ('a \<Rightarrow> error + 'b) \<Rightarrow> error + 'b" where
  "bindE m f = (case m of Inl e \<Rightarrow> Inl e | Inr x \<Rightarrow> f x)"

fun mapE :: "('a \<Rightarrow> error + 'b) \<Rightarrow> 'a list \<Rightarrow> error + 'b list" where
  "mapE f [] = Inr []"
| "mapE f (x # xs) = bindE (f x) (\<lambda>y. bindE (mapE f xs) (\<lambda>ys. Inr (y # ys)))"

text \<open>Row-major offset of a multi-index, and element access.\<close>

definition offset :: "nat list \<Rightarrow> nat list \<Rightarrow> nat" where
  "offset s idx = foldl (\<lambda>acc (n, i). acc * n + i) 0 (zip s idx)"


text \<open>Python tuple unpacking of a shape (\<open>h, w = K.shape\<close>) and indexing (\<open>K.shape[0]\<close>).\<close>

definition unpack2 :: "nat list \<Rightarrow> error + (nat \<times> nat)" where
  "unpack2 s = (case s of [a, b] \<Rightarrow> Inr (a, b) | _ \<Rightarrow> Inl ValueError)"


definition shape_at :: "nat list \<Rightarrow> nat \<Rightarrow> error + nat" where
  "shape_at s i = (if i < length s then Inr (s ! i) else Inl IndexError)"

text \<open>
  Iterating over a tensor (\<open>for k in K\<close>, \<open>zip(X, K)\<close>) yields its slices along axis 0;
  a scalar tensor cannot be iterated.
\<close>

definition slice0 :: "'a tensor \<Rightarrow> nat \<Rightarrow> 'a tensor" where
  "slice0 t i =
     \<lparr>shape = tl (shape t),
      data = take (prod_list (tl (shape t))) (drop (i * prod_list (tl (shape t))) (data t))\<rparr>"

definition iter_tensor :: "'a tensor \<Rightarrow> error + 'a tensor list" where
  "iter_tensor t =
     (case shape t of
        [] \<Rightarrow> Inl TypeError
      | n # s \<Rightarrow> Inr (map (slice0 t) [0..<n]))"

section \<open>Library primitives\<close>

text \<open>
  The notebooks call functions of TensorFlow, JAX, Flax and d2l. They are no part of
  the notebooks; each is given here by what it does on the arguments the notebooks'
  functions pass to it.
\<close>

text \<open>
  Reshape keeps the row-major data and replaces the shape. One dimension may be \<open>-1\<close>;
  it is the size divided by the product of the other dimensions. The errors are the
  library's own: \<open>zerr\<close> when that product is zero, \<open>err\<close> for every other shape
  that does not fit the size. \<open>tf.reshape\<close> raises \<open>InvalidArgumentError\<close> in both
  cases; \<open>jnp.reshape\<close> divides by the product (\<open>ZeroDivisionError\<close>) and raises
  \<open>TypeError\<close> for a shape of another size.
\<close>

definition reshape_gen :: "error \<Rightarrow> error \<Rightarrow> 'a tensor \<Rightarrow> int list \<Rightarrow> error + 'a tensor" where
  "reshape_gen err zerr t ns =
     (if list_ex (\<lambda>d. d < - 1) ns then Inl err
      else
        (case filter (\<lambda>d. d = - 1) ns of
           [] \<Rightarrow>
             if prod_list (map nat ns) = prod_list (shape t)
             then Inr \<lparr>shape = map nat ns, data = data t\<rparr>
             else Inl err
         | [_] \<Rightarrow>
             (let known = prod_list (map nat (filter (\<lambda>d. d \<noteq> - 1) ns)) in
              if known = 0 then Inl zerr
              else if prod_list (shape t) mod known \<noteq> 0 then Inl err
              else Inr \<lparr>shape = map (\<lambda>d. if d = - 1 then prod_list (shape t) div known
                                           else nat d) ns,
                        data = data t\<rparr>)
         | _ \<Rightarrow> Inl err))"



text \<open>
  \<open>tf.stack(values, 0)\<close> packs tensors of one shape along a new leading axis. An empty
  list packs to the empty vector of shape \<open>(0,)\<close>: it carries no element shape.
\<close>

definition tf_stack :: "'a tensor list \<Rightarrow> error + 'a tensor" where
  "tf_stack ts =
     (case ts of
        [] \<Rightarrow> Inr \<lparr>shape = [0], data = []\<rparr>
      | t # _ \<Rightarrow>
          if list_all (\<lambda>u. shape u = shape t) ts
          then Inr \<lparr>shape = length ts # shape t, data = concat (map data ts)\<rparr>
          else Inl InvalidArgumentError)"

text \<open>
  \<open>tf.reduce_sum(values, axis=0)\<close> on a Python list: the list is packed into one tensor,
  then summed along its leading axis.
\<close>

definition reduce_sum0 :: "'a::semiring_0 tensor \<Rightarrow> error + 'a tensor" where
  "reduce_sum0 t =
     (case shape t of
        [] \<Rightarrow> Inl InvalidArgumentError
      | n # s \<Rightarrow>
          Inr \<lparr>shape = s,
               data = map (\<lambda>p. sum_list (map (\<lambda>i. data t ! (i * prod_list s + p)) [0..<n]))
                        [0..<prod_list s]\<rparr>)"

definition tf_reduce_sum :: "'a::semiring_0 tensor list \<Rightarrow> error + 'a tensor" where
  "tf_reduce_sum ts = bindE (tf_stack ts) reduce_sum0"

text \<open>
  Modelled from the spec: \<open>d2l.corr2d\<close>, the pre-existing 2D correlation primitive the
  channel loops delegate to, is not part of the notebooks. It is the sliding-window
  weighted sum: for an input of shape \<open>(h, w)\<close> and a kernel of shape \<open>(k_h, k_w)\<close> the
  output has shape \<open>(h - k_h + 1, w - k_w + 1)\<close> and element \<open>(i, j)\<close> is the sum over
  \<open>a, b\<close> of \<open>X[i + a, j + b] * K[a, b]\<close>. A kernel that is not a matrix fails the
  unpacking \<open>h, w = K.shape\<close>; an input that is not a matrix and an output dimension
  below zero are refused.
\<close>

definition d2l_corr2d :: "'a::semiring_0 tensor \<Rightarrow> 'a tensor \<Rightarrow> error + 'a tensor" where
  "d2l_corr2d X K =
     bindE (unpack2 (shape K)) (\<lambda>(k_h, k_w).
     bindE (unpack2 (shape X)) (\<lambda>(h, w).
       if k_h \<le> h + 1 \<and> k_w \<le> w + 1 then
         Inr \<lparr>shape = [h + 1 - k_h, w + 1 - k_w],
              data = concat (map (\<lambda>i. map (\<lambda>j.
                       sum_list (map (\<lambda>a. sum_list (map (\<lambda>b.
                         data X ! ((i + a) * w + (j + b)) * data K ! (a * k_w + b))
                         [0..<k_w])) [0..<k_h]))
                       [0..<w + 1 - k_w]) [0..<h + 1 - k_h])\<rparr>
       else Inl InvalidArgumentError))"

section \<open>Multiple input and multiple output channels\<close>

text \<open>
  \<^verbatim>\<open>return tf.reduce_sum([d2l.corr2d(x, k) for x, k in zip(X, K)], axis=0)\<close>
\<close>

definition corr2d_multi_in :: "'a::semiring_0 tensor \<Rightarrow> 'a tensor \<Rightarrow> error + 'a tensor" where
  "corr2d_multi_in X K =
     bindE (iter_tensor X) (\<lambda>xs.
     bindE (iter_tensor K) (\<lambda>ks.
     bindE (mapE (\<lambda>(x, k). d2l_corr2d x k) (zip xs ks)) tf_reduce_sum))"

text \<open>
  \<^verbatim>\<open>return tf.stack([corr2d_multi_in(X, k) for k in K], 0)\<close>
\<close>

definition corr2d_multi_in_out :: "'a::semiring_0 tensor \<Rightarrow> 'a tensor \<Rightarrow> error + 'a tensor" where
  "corr2d_multi_in_out X K =
     bindE (iter_tensor K) (\<lambda>ks.
     bindE (mapE (\<lambda>k. corr2d_multi_in X k) ks) tf_stack)"


section \<open>Closed forms used in the statements\<close>

text \<open>
  The window sum of one channel: \<open>xo\<close> and \<open>ko\<close> are the offsets of the channel in the
  row-major data of the input and of the kernel.
\<close>

definition conv_at ::
  "'a::semiring_0 list \<Rightarrow> nat \<Rightarrow> nat \<Rightarrow> 'a list \<Rightarrow> nat \<Rightarrow> nat \<Rightarrow> nat \<Rightarrow> nat \<Rightarrow> nat \<Rightarrow> 'a" where
  "conv_at xd xo w kd ko k_h k_w i j =
     sum_list (map (\<lambda>a. sum_list (map (\<lambda>b.
       xd ! (xo + ((i + a) * w + (j + b))) * kd ! (ko + (a * k_w + b))) [0..<k_w])) [0..<k_h])"

text \<open>The row-major data of the sum over the first \<open>m\<close> channels of the window sums.\<close>

definition multi_in_data ::
  "'a::semiring_0 tensor \<Rightarrow> 'a tensor \<Rightarrow> nat \<Rightarrow> nat \<Rightarrow> nat \<Rightarrow> nat \<Rightarrow> nat \<Rightarrow> 'a list" where
  "multi_in_data X K m h w k_h k_w =
     concat (map (\<lambda>i. map (\<lambda>j.
       sum_list (map (\<lambda>ch. conv_at (data X) (ch * (h * w)) w (data K) (ch * (k_h * k_w)) k_h k_w i j)
         [0..<m]))
       [0..<Suc w - k_w]) [0..<Suc h - k_h])"


text \<open>The tensors of the notebook's worked example (two input channels, 3x3 input, 2x2 kernel).\<close>

definition X_fig :: "int tensor" where
  "X_fig = \<lparr>shape = [2, 3, 3],
            data = [0, 1, 2, 3, 4, 5, 6, 7, 8,  1, 2, 3, 4, 5, 6, 7, 8, 9]\<rparr>"

definition K_fig :: "int tensor" where
  "K_fig = \<lparr>shape = [2, 2, 2], data = [0, 1, 2, 3,  1, 2, 3, 4]\<rparr>"

text \<open>\<open>tf.stack((K, K + 1, K + 2), 0)\<close>: the kernel with three output channels.\<close>

definition K_fig3 :: "int tensor" where
  "K_fig3 = \<lparr>shape = [3, 2, 2, 2],
             data = [0, 1, 2, 3,  1, 2, 3, 4,   1, 2, 3, 4,  2, 3, 4, 5,   2, 3, 4, 5,  3, 4, 5, 6]\<rparr>"

text \<open>
  A four-dimensional table in row-major order, and the exchange of the two middle axes
  of the row-major data of a tensor of shape \<open>(a, b, c, d)\<close>.
\<close>

definition nest4 :: "nat \<Rightarrow> nat \<Rightarrow> nat \<Rightarrow> nat \<Rightarrow> (nat \<Rightarrow> nat \<Rightarrow> nat \<Rightarrow> nat \<Rightarrow> 'a) \<Rightarrow> 'a list" where
  "nest4 a b c d f =
     concat (map (\<lambda>i. concat (map (\<lambda>j. concat (map (\<lambda>k. map (\<lambda>l. f i j k l)
       [0..<d]) [0..<c])) [0..<b])) [0..<a])"

definition swap_mid :: "nat \<Rightarrow> nat \<Rightarrow> nat \<Rightarrow> nat \<Rightarrow> 'a list \<Rightarrow> 'a list" where
  "swap_mid a b c d xs = nest4 a c b d (\<lambda>i j k l. xs ! (((i * b + k) * c + j) * d + l))"

section \<open>Multi-head attention\<close>

subsection \<open>Library primitives\<close>

definition jnp_reshape :: "'a tensor \<Rightarrow> int list \<Rightarrow> error + 'a tensor" where
  "jnp_reshape = reshape_gen TypeError ZeroDivisionError"

text \<open>All multi-indices of a shape, in row-major order.\<close>

fun indices :: "nat list \<Rightarrow> nat list list" where
  "indices [] = [[]]"
| "indices (n # s) = concat (map (\<lambda>i. map ((#) i) (indices s)) [0..<n])"

text \<open>The position of an axis in a permutation of the axes.\<close>

fun index_of :: "nat list \<Rightarrow> nat \<Rightarrow> nat" where
  "index_of [] k = 0"
| "index_of (a # axes) k = (if a = k then 0 else Suc (index_of axes k))"

text \<open>
  \<open>jnp.transpose(X, axes)\<close>: output axis \<open>p\<close> is input axis \<open>axes[p]\<close>. The element at
  an output index is the input element at the index whose coordinate on axis \<open>axes[p]\<close>
  is the output coordinate on axis \<open>p\<close>. \<open>axes\<close> must be a permutation of the axes.
\<close>

definition jnp_transpose :: "'a tensor \<Rightarrow> nat list \<Rightarrow> error + 'a tensor" where
  "jnp_transpose t axes =
     (if sort axes = [0..<length (shape t)] then
        Inr \<lparr>shape = map (\<lambda>a. shape t ! a) axes,
             data = map (\<lambda>idx. data t !
                      offset (shape t) (map (\<lambda>k. idx ! index_of axes k) [0..<length axes]))
                      (indices (map (\<lambda>a. shape t ! a) axes))\<rparr>
      else Inl ValueError)"

text \<open>
  \<open>jnp.repeat(t, r, axis=0)\<close>: every slice along axis 0 is copied \<open>r\<close> times in a row;
  a scalar is taken as a vector of one element.
\<close>

definition jnp_repeat :: "'v tensor \<Rightarrow> int \<Rightarrow> error + 'v tensor" where
  "jnp_repeat t r =
     (if r < 0 then Inl ValueError
      else
        (case shape t of
           [] \<Rightarrow> Inr \<lparr>shape = [nat r], data = concat (replicate (nat r) (data t))\<rparr>
         | n # s \<Rightarrow>
             Inr \<lparr>shape = (n * nat r) # s,
                  data = concat (map (\<lambda>i. concat (replicate (nat r) (data (slice0 t i))))
                           [0..<n])\<rparr>))"

text \<open>
  Modelled from the spec: the linear projections are \<open>nn.Dense\<close> layers of the host
  library, not part of the notebooks. A layer with \<open>features\<close> outputs holds a kernel of
  shape \<open>(d_in, features)\<close> and, when it uses a bias, a bias of shape \<open>(features,)\<close>; it
  maps the last axis of its input: \<open>y[..., j] = sum_i x[..., i] * kernel[i, j] + bias[j]\<close>.
  Parameters that do not fit the input are refused.
\<close>

record 'a Dense =
  kernel :: "'a tensor"
  dense_bias :: "'a tensor option"

definition Dense_call :: "nat \<Rightarrow> bool \<Rightarrow> 'a::semiring_0 Dense \<Rightarrow> 'a tensor \<Rightarrow> error + 'a tensor" where
  "Dense_call features use_bias D X =
     (case rev (shape X) of
        [] \<Rightarrow> Inl ScopeParamShapeError
      | d_in # lead \<Rightarrow>
          if shape (kernel D) \<noteq> [d_in, features] then Inl ScopeParamShapeError
          else if use_bias \<and> map_option shape (dense_bias D) \<noteq> Some [features]
          then Inl ScopeParamShapeError
          else
            Inr \<lparr>shape = rev lead @ [features],
                 data = concat (map (\<lambda>r. map (\<lambda>j.
                          sum_list (map (\<lambda>i. data X ! (r * d_in + i) * data (kernel D) ! (i * features + j))
                            [0..<d_in])
                          + (if use_bias then data (the (dense_bias D)) ! j else 0))
                          [0..<features]) [0..<prod_list (rev lead)])\<rparr>)"

text \<open>
  Modelled from the spec: the underlying attention primitive \<open>d2l.DotProductAttention\<close>
  is not part of the notebooks. It takes queries of shape \<open>(b, n, d)\<close>, keys of shape
  \<open>(b, m, d)\<close>, values of shape \<open>(b, m, d_v)\<close> and optional valid lengths with leading
  axis \<open>b\<close>, and pools every batch item on its own: item \<open>p\<close> of the output and of the
  attention weights depends on item \<open>p\<close> of the four arguments only. The pooling of one
  item (scaling, masked softmax, dropout, weighted sum) is the parameter \<open>att\<close>.
\<close>

definition batch_of :: "'a tensor list \<Rightarrow> nat list \<Rightarrow> error + 'a tensor" where
  "batch_of ts s =
     (if list_all (\<lambda>t. shape t = s) ts
      then Inr \<lparr>shape = length ts # s, data = concat (map data ts)\<rparr>
      else Inl TypeError)"

definition DotProductAttention ::
  "(bool \<Rightarrow> 'a tensor \<Rightarrow> 'a tensor \<Rightarrow> 'a tensor \<Rightarrow> 'v tensor option \<Rightarrow> error + ('a tensor \<times> 'a tensor)) \<Rightarrow>
   bool \<Rightarrow> 'a tensor \<Rightarrow> 'a tensor \<Rightarrow> 'a tensor \<Rightarrow> 'v tensor option \<Rightarrow> error + ('a tensor \<times> 'a tensor)" where
  "DotProductAttention att training queries keys values valid_lens =
     (case (shape queries, shape keys, shape values) of
        ([b, n, d], [b', m, d'], [b'', m', d_v]) \<Rightarrow>
          if b' = b \<and> b'' = b \<and> d' = d \<and> m' = m \<and>
             (case valid_lens of None \<Rightarrow> True | Some vl \<Rightarrow> shape vl = [b] \<or> shape vl = [b, n])
          then
            bindE (mapE (\<lambda>p. att training (slice0 queries p) (slice0 keys p) (slice0 values p)
                               (map_option (\<lambda>vl. slice0 vl p) valid_lens)) [0..<b]) (\<lambda>rs.
            bindE (batch_of (map fst rs) [n, d_v]) (\<lambda>output.
            bindE (batch_of (map snd rs) [n, m]) (\<lambda>attention_weights.
            Inr (output, attention_weights))))
          else Inl TypeError
      | _ \<Rightarrow> Inl TypeError)"

subsection \<open>The module\<close>

text \<open>
  The fields of \<open>MultiHeadAttention\<close> and what \<open>setup\<close> creates: the attention primitive
  (built from the dropout rate) and the four dense layers with their parameters.
\<close>

record ('a, 'v) MultiHeadAttention =
  num_hiddens :: nat
  num_heads :: int
  bias :: bool
  attention :: "bool \<Rightarrow> 'a tensor \<Rightarrow> 'a tensor \<Rightarrow> 'a tensor \<Rightarrow> 'v tensor option \<Rightarrow>
                error + ('a tensor \<times> 'a tensor)"
  W_q :: "'a Dense"
  W_k :: "'a Dense"
  W_v :: "'a Dense"
  W_o :: "'a Dense"

text \<open>
  \<^verbatim>\<open>X = X.reshape((X.shape[0], X.shape[1], self.num_heads, -1))\<close>
  \<^verbatim>\<open>X = jnp.transpose(X, (0, 2, 1, 3))\<close>
  \<^verbatim>\<open>return X.reshape((-1, X.shape[2], X.shape[3]))\<close>
\<close>

definition transpose_qkv :: "('a, 'v, 'z) MultiHeadAttention_scheme \<Rightarrow> 'b tensor \<Rightarrow> error + 'b tensor" where
  "transpose_qkv self X =
     bindE (shape_at (shape X) 0) (\<lambda>s0.
     bindE (shape_at (shape X) 1) (\<lambda>s1.
     bindE (jnp_reshape X [int s0, int s1, num_heads self, - 1]) (\<lambda>X.
     bindE (jnp_transpose X [0, 2, 1, 3]) (\<lambda>X.
     bindE (shape_at (shape X) 2) (\<lambda>s2.
     bindE (shape_at (shape X) 3) (\<lambda>s3.
     jnp_reshape X [- 1, int s2, int s3]))))))"

text \<open>
  \<^verbatim>\<open>X = X.reshape((-1, self.num_heads, X.shape[1], X.shape[2]))\<close>
  \<^verbatim>\<open>X = jnp.transpose(X, (0, 2, 1, 3))\<close>
  \<^verbatim>\<open>return X.reshape((X.shape[0], X.shape[1], -1))\<close>
\<close>

definition transpose_output :: "('a, 'v, 'z) MultiHeadAttention_scheme \<Rightarrow> 'b tensor \<Rightarrow> error + 'b tensor" where
  "transpose_output self X =
     bindE (shape_at (shape X) 1) (\<lambda>s1.
     bindE (shape_at (shape X) 2) (\<lambda>s2.
     bindE (jnp_reshape X [- 1, num_heads self, int s1, int s2]) (\<lambda>X.
     bindE (jnp_transpose X [0, 2, 1, 3]) (\<lambda>X.
     bindE (shape_at (shape X) 0) (\<lambda>s0.
     bindE (shape_at (shape X) 1) (\<lambda>s1.
     jnp_reshape X [int s0, int s1, - 1]))))))"

text \<open>
  \<open>__call__\<close>: project, split into heads, repeat the valid lengths once per head, pool,
  join the heads, project.
\<close>

definition MultiHeadAttention_call ::
  "('a::semiring_0, 'v) MultiHeadAttention \<Rightarrow> 'a tensor \<Rightarrow> 'a tensor \<Rightarrow> 'a tensor \<Rightarrow>
   'v tensor option \<Rightarrow> bool \<Rightarrow> error + ('a tensor \<times> 'a tensor)" where
  "MultiHeadAttention_call self queries keys values valid_lens training =
     bindE (Dense_call (num_hiddens self) (bias self) (W_q self) queries) (\<lambda>q.
     bindE (transpose_qkv self q) (\<lambda>queries.
     bindE (Dense_call (num_hiddens self) (bias self) (W_k self) keys) (\<lambda>k.
     bindE (transpose_qkv self k) (\<lambda>keys.
     bindE (Dense_call (num_hiddens self) (bias self) (W_v self) values) (\<lambda>v.
     bindE (transpose_qkv self v) (\<lambda>values.
     bindE (case valid_lens of
              None \<Rightarrow> Inr None
            | Some vl \<Rightarrow> bindE (jnp_repeat vl (num_heads self)) (\<lambda>r. Inr (Some r))) (\<lambda>valid_lens.
     bindE (attention self training queries keys values valid_lens) (\<lambda>(output, attention_weights).
     bindE (transpose_output self output) (\<lambda>output_concat.
     bindE (Dense_call (num_hiddens self) (bias self) (W_o self) output_concat) (\<lambda>out.
     Inr (out, attention_weights)))))))))))"

subsection \<open>The standard formula\<close>

text \<open>
  Head \<open>i\<close> of a projected matrix of shape \<open>(n, H)\<close>: its columns \<open>i * d, ..., i * d + d - 1\<close>.
\<close>

definition head_of :: "nat \<Rightarrow> nat \<Rightarrow> 'a tensor \<Rightarrow> 'a tensor" where
  "head_of d i M =
     \<lparr>shape = [shape M ! 0, d],
      data = concat (map (\<lambda>r. map (\<lambda>l. data M ! (r * (shape M ! 1) + (i * d + l))) [0..<d])
               [0..<shape M ! 0])\<rparr>"

text \<open>
  Multi-head attention as the formula states it. The queries, keys and values are
  projected; head \<open>i\<close> of batch item \<open>b\<close> (numbered \<open>p = b * h + i\<close>) pools the \<open>i\<close>-th
  column blocks of the three projections of item \<open>b\<close>, under the valid length of item
  \<open>b\<close>; row \<open>r\<close> of the concatenation for item \<open>b\<close> is row \<open>r\<close> of its heads side by side; the
  concatenation is projected by \<open>W_o\<close>. The attention weights of all heads are returned
  with it.
\<close>

definition multi_head_formula ::
  "(bool \<Rightarrow> 'a tensor \<Rightarrow> 'a tensor \<Rightarrow> 'a tensor \<Rightarrow> 'v tensor option \<Rightarrow> error + ('a tensor \<times> 'a tensor)) \<Rightarrow>
   ('a::semiring_0, 'v) MultiHeadAttention \<Rightarrow> 'a tensor \<Rightarrow> 'a tensor \<Rightarrow> 'a tensor \<Rightarrow>
   'v tensor option \<Rightarrow> bool \<Rightarrow> error + ('a tensor \<times> 'a tensor)" where
  "multi_head_formula att self queries keys values valid_lens training =
     bindE (Dense_call (num_hiddens self) (bias self) (W_q self) queries) (\<lambda>Q.
     bindE (Dense_call (num_hiddens self) (bias self) (W_k self) keys) (\<lambda>K.
     bindE (Dense_call (num_hiddens self) (bias self) (W_v self) values) (\<lambda>V.
       (let h = nat (num_heads self); d = num_hiddens self div h;
            b = shape Q ! 0; n = shape Q ! 1; m = shape K ! 1
        in
          bindE (mapE (\<lambda>p. att training
                         (head_of d (p mod h) (slice0 Q (p div h)))
                         (head_of d (p mod h) (slice0 K (p div h)))
                         (head_of d (p mod h) (slice0 V (p div h)))
                         (map_option (\<lambda>vl. slice0 vl (p div h)) valid_lens))
                   [0..<b * h]) (\<lambda>heads.
          bindE (Dense_call (num_hiddens self) (bias self) (W_o self)
                   \<lparr>shape = [b, n, h * d],
                    data = nest4 b n h d (\<lambda>b' r i l. data (fst (heads ! (b' * h + i))) ! (r * d + l))\<rparr>)
            (\<lambda>out.
          Inr (out, \<lparr>shape = [b * h, n, m], data = concat (map (\<lambda>(o', w). data w) heads)\<rparr>)))))))"

text \<open>
  What the formula needs of the pooling of one item: on a query matrix of shape
  \<open>(n, d)\<close>, a key matrix of shape \<open>(m, d)\<close> and a value matrix of shape \<open>(m, d_v)\<close> a
  result has an output of shape \<open>(n, d_v)\<close> and weights of shape \<open>(n, m)\<close>.
\<close>

definition pooling_shapes ::
  "(bool \<Rightarrow> 'a tensor \<Rightarrow> 'a tensor \<Rightarrow> 'a tensor \<Rightarrow> 'v tensor option \<Rightarrow> error + ('a tensor \<times> 'a tensor)) \<Rightarrow> bool" where
  "pooling_shapes att =
     (\<forall>training q k v vl o' w n d m d_v.
        shape q = [n, d] \<and> shape k = [m, d] \<and> shape v = [m, d_v] \<and>
        att training q k v vl = Inr (o', w) \<longrightarrow>
        shape o' = [n, d_v] \<and> wf_tensor o' \<and> shape w = [n, m] \<and> wf_tensor w)"

text \<open>
  What the shape of the result needs of the attention primitive: on well-formed
  queries of shape \<open>(b, n, d)\<close>, keys of shape \<open>(b, m, d)\<close>, values of shape \<open>(b, m, d_v)\<close> and
  valid lengths that are absent or of shape \<open>(b,)\<close> or \<open>(b, n)\<close>, it returns an output of
  shape \<open>(b, n, d_v)\<close>.
\<close>

definition attention_shapes ::
  "(bool \<Rightarrow> 'a tensor \<Rightarrow> 'a tensor \<Rightarrow> 'a tensor \<Rightarrow> 'v tensor option \<Rightarrow> error + ('a tensor \<times> 'a tensor)) \<Rightarrow> bool" where
  "attention_shapes f =
     (\<forall>training Q K V vl b n m d d_v.
        shape Q = [b, n, d] \<and> wf_tensor Q \<and> shape K = [b, m, d] \<and> wf_tensor K \<and>
        shape V = [b, m, d_v] \<and> wf_tensor V \<and>
        (case vl of None \<Rightarrow> True | Some t \<Rightarrow> shape t = [b] \<or> shape t = [b, n]) \<longrightarrow>
        (\<exists>O' W. f training Q K V vl = Inr (O', W) \<and> shape O' = [b, n, d_v] \<and> wf_tensor O'))"

text \<open>
  A pooling to run examples with: the masked dot-product scores themselves serve as
  weights (no scaling, softmax or dropout), so that every value is an integer.
\<close>

definition example_pooling ::
  "bool \<Rightarrow> int tensor \<Rightarrow> int tensor \<Rightarrow> int tensor \<Rightarrow> nat tensor option \<Rightarrow> error + (int tensor \<times> int tensor)" where
  "example_pooling training q k v vl =
     (case (shape q, shape k, shape v) of
        ([n, d], [m, d'], [m', d_v]) \<Rightarrow>
          if d' = d \<and> m' = m then
            (let w = concat (map (\<lambda>i. map (\<lambda>j.
                       if (case vl of None \<Rightarrow> True
                           | Some t \<Rightarrow> j < (if shape t = [] then data t ! 0 else data t ! i))
                       then sum_list (map (\<lambda>c. data q ! (i * d + c) * data k ! (j * d + c)) [0..<d])
                       else 0) [0..<m]) [0..<n])
             in Inr (\<lparr>shape = [n, d_v],
                      data = concat (map (\<lambda>i. map (\<lambda>l.
                               sum_list (map (\<lambda>j. w ! (i * m + j) * data v ! (j * d_v + l)) [0..<m]))
                               [0..<d_v]) [0..<n])\<rparr>,
                     \<lparr>shape = [n, m], data = w\<rparr>))
          else Inl TypeError
      | _ \<Rightarrow> Inl TypeError)"

text \<open>A module with two heads on four hidden units, identity projections and no bias.\<close>

definition identity4 :: "int Dense" where
  "identity4 = \<lparr>kernel = \<lparr>shape = [4, 4], data = [1, 0, 0, 0,  0, 1, 0, 0,  0, 0, 1, 0,  0, 0, 0, 1]\<rparr>,
                dense_bias = None\<rparr>"

definition example_module :: "(int, nat) MultiHeadAttention" where
  "example_module =
     \<lparr>num_hiddens = 4, num_heads = 2, bias = False,
      attention = DotProductAttention example_pooling,
      W_q = identity4, W_k = identity4, W_v = identity4, W_o = identity4\<rparr>"

definition example_queries :: "int tensor" where
  "example_queries = \<lparr>shape = [1, 2, 4], data = [1, 0, 2, 1,  0, 1, 1, 3]\<rparr>"

definition example_keys :: "int tensor" where
  "example_keys = \<lparr>shape = [1, 3, 4], data = [1, 1, 0, 2,  2, 0, 1, 1,  0, 3, 1, 0]\<rparr>"

section \<open>Auxiliary facts\<close>

lemma bindE_Inl [simp]: "bindE (Inl e) f = Inl e"
  by (simp add: bindE_def)

lemma bindE_Inr [simp]: "bindE (Inr x) f = f x"
  by (simp add: bindE_def)

lemma bindE_eq_Inr: "bindE m f = Inr y \<longleftrightarrow> (\<exists>x. m = Inr x \<and> f x = Inr y)"
  by (cases m) simp_all


lemma mapE_Inr_map: "(\<And>x. x \<in> set xs \<Longrightarrow> f x = Inr (g x)) \<Longrightarrow> mapE f xs = Inr (map g xs)"
  by (induction xs) simp_all

lemma mapE_Inr_D: "mapE f xs = Inr ys \<Longrightarrow> length ys = length xs \<and> (\<forall>i<length xs. f (xs ! i) = Inr (ys ! i))"
proof (induction xs arbitrary: ys)
  case Nil
  then show ?case by simp
next
  case (Cons x xs)
  from Cons.prems obtain y ys' where y: "f x = Inr y" and ys': "mapE f xs = Inr ys'" and eq: "ys = y # ys'"
    by (auto simp: bindE_eq_Inr)
  from Cons.IH [OF ys'] have "length ys' = length xs" and "\<forall>i<length xs. f (xs ! i) = Inr (ys' ! i)"
    by simp_all
  with y eq show ?case by (auto simp: nth_Cons split: nat.splits)
qed


lemma nth_concat_uniform:
  "(\<And>xs. xs \<in> set xss \<Longrightarrow> length xs = m) \<Longrightarrow> i < length xss \<Longrightarrow> j < m \<Longrightarrow>
   concat xss ! (i * m + j) = xss ! i ! j"
proof (induction xss arbitrary: i)
  case Nil
  then show ?case by simp
next
  case (Cons xs xss)
  have len: "length xs = m" using Cons.prems(1) by simp
  show ?case
  proof (cases i)
    case 0
    with len Cons.prems(3) show ?thesis by (simp add: nth_append)
  next
    case (Suc k)
    with Cons.prems have "concat xss ! (k * m + j) = xss ! k ! j"
      by (intro Cons.IH) simp_all
    with Suc len show ?thesis by (simp add: nth_append)
  qed
qed

lemma length_concat_uniform:
  "(\<And>xs. xs \<in> set xss \<Longrightarrow> length xs = m) \<Longrightarrow> length (concat xss) = length xss * m"
  by (induction xss) simp_all

lemma nth_concat_map_upt:
  "(\<And>i. i < n \<Longrightarrow> length (f i) = m) \<Longrightarrow> i < n \<Longrightarrow> j < m \<Longrightarrow>
   concat (map f [0..<n]) ! (i * m + j) = f i ! j"
  by (subst nth_concat_uniform) auto

lemma length_concat_map_upt:
  "(\<And>i. i < n \<Longrightarrow> length (f i) = m) \<Longrightarrow> length (concat (map f [0..<n])) = n * m"
  by (subst length_concat_uniform [where m = m]) auto

lemma flat_index_less: "i < n \<Longrightarrow> j < m \<Longrightarrow> i * m + j < n * (m::nat)"
proof -
  assume "i < n" "j < m"
  then have "i * m + j < i * m + m" by simp
  also have "\<dots> = Suc i * m" by simp
  also have "\<dots> \<le> n * m" using \<open>i < n\<close> by (intro mult_le_mono1) simp
  finally show ?thesis .
qed

lemma concat_map_map_flat:
  "concat (map (\<lambda>i. map (\<lambda>j. g (i * m + j)) [0..<m]) [0..<n]) = map g [0..<n * m]"
proof (rule nth_equalityI)
  show len: "length (concat (map (\<lambda>i. map (\<lambda>j. g (i * m + j)) [0..<m]) [0..<n])) = length (map g [0..<n * m])"
    by (simp add: length_concat_map_upt)
  fix p assume "p < length (concat (map (\<lambda>i. map (\<lambda>j. g (i * m + j)) [0..<m]) [0..<n]))"
  with len have p: "p < n * m" by simp
  then have m: "0 < m" by (cases m) simp_all
  from p m have d: "p div m < n" by (simp add: less_mult_imp_div_less)
  have r: "p mod m < m" using m by simp
  have "concat (map (\<lambda>i. map (\<lambda>j. g (i * m + j)) [0..<m]) [0..<n]) ! (p div m * m + p mod m)
        = map (\<lambda>j. g (p div m * m + j)) [0..<m] ! (p mod m)"
    using d r by (intro nth_concat_map_upt) simp_all
  then show "concat (map (\<lambda>i. map (\<lambda>j. g (i * m + j)) [0..<m]) [0..<n]) ! p = map g [0..<n * m] ! p"
    using p r by simp
qed

lemma slice0_shape: "shape t = n # s \<Longrightarrow> shape (slice0 t i) = s"
  by (simp add: slice0_def)

lemma slice0_wf: "wf_tensor t \<Longrightarrow> shape t = n # s \<Longrightarrow> i < n \<Longrightarrow> wf_tensor (slice0 t i)"
proof -
  assume wf: "wf_tensor t" and sh: "shape t = n # s" and i: "i < n"
  have "Suc i * prod_list s \<le> n * prod_list s" using i by (intro mult_le_mono1) simp
  then have "i * prod_list s + prod_list s \<le> length (data t)"
    using wf sh by (simp add: wf_tensor_def)
  then show ?thesis using sh by (simp add: wf_tensor_def slice0_def)
qed

lemma slice0_nth:
  "wf_tensor t \<Longrightarrow> shape t = n # s \<Longrightarrow> i < n \<Longrightarrow> q < prod_list s \<Longrightarrow>
   data (slice0 t i) ! q = data t ! (i * prod_list s + q)"
proof -
  assume wf: "wf_tensor t" and sh: "shape t = n # s" and i: "i < n" and q: "q < prod_list s"
  have "i * prod_list s + q < n * prod_list s" using i q by (rule flat_index_less)
  then have "i * prod_list s + q < length (data t)" using wf sh by (simp add: wf_tensor_def)
  then show ?thesis using sh q by (simp add: slice0_def)
qed

lemma tf_stack_ok:
  "ts \<noteq> [] \<Longrightarrow> (\<And>t. t \<in> set ts \<Longrightarrow> shape t = s) \<Longrightarrow>
   tf_stack ts = Inr \<lparr>shape = length ts # s, data = concat (map data ts)\<rparr>"
  by (cases ts) (auto simp: tf_stack_def list_all_iff)

lemma map_nth_upt: "map (\<lambda>i. f (ts ! i)) [0..<length ts] = map f ts"
  by (rule nth_equalityI) simp_all

lemma tf_reduce_sum_ok:
  assumes ne: "ts \<noteq> []"
    and sh: "\<And>t. t \<in> set ts \<Longrightarrow> shape t = s"
    and len: "\<And>t. t \<in> set ts \<Longrightarrow> length (data t) = prod_list s"
  shows "tf_reduce_sum ts =
    Inr \<lparr>shape = s, data = map (\<lambda>p. sum_list (map (\<lambda>t. data t ! p) ts)) [0..<prod_list s]\<rparr>"
proof -
  have st: "tf_stack ts = Inr \<lparr>shape = length ts # s, data = concat (map data ts)\<rparr>"
    using ne sh by (rule tf_stack_ok)
  have el: "concat (map data ts) ! (i * prod_list s + p) = data (ts ! i) ! p"
    if "i < length ts" "p < prod_list s" for i p
    using nth_concat_uniform [of "map data ts" "prod_list s" i p] that len by auto
  have "map (\<lambda>i. concat (map data ts) ! (i * prod_list s + p)) [0..<length ts]
        = map (\<lambda>t. data t ! p) ts" if "p < prod_list s" for p
  proof -
    have "map (\<lambda>i. concat (map data ts) ! (i * prod_list s + p)) [0..<length ts]
          = map (\<lambda>i. data (ts ! i) ! p) [0..<length ts]"
      using el that by simp
    also have "\<dots> = map (\<lambda>t. data t ! p) ts" by (rule map_nth_upt)
    finally show ?thesis .
  qed
  then show ?thesis
    by (simp add: tf_reduce_sum_def st reduce_sum0_def)
qed

lemma d2l_corr2d_ok:
  "shape X = [h, w] \<Longrightarrow> shape K = [k_h, k_w] \<Longrightarrow> k_h \<le> Suc h \<Longrightarrow> k_w \<le> Suc w \<Longrightarrow>
   d2l_corr2d X K =
     Inr \<lparr>shape = [Suc h - k_h, Suc w - k_w],
          data = concat (map (\<lambda>i. map (\<lambda>j. conv_at (data X) 0 w (data K) 0 k_h k_w i j)
                   [0..<Suc w - k_w]) [0..<Suc h - k_h])\<rparr>"
  by (simp add: d2l_corr2d_def unpack2_def conv_at_def)

lemma zip_map_upt:
  "zip (map f [0..<n]) (map g [0..<m]) = map (\<lambda>i. (f i, g i)) [0..<min n m]"
  by (rule nth_equalityI) simp_all

lemma window_index_less:
  "i < Suc h - k_h \<Longrightarrow> a < k_h \<Longrightarrow> j < Suc w - k_w \<Longrightarrow> b < k_w \<Longrightarrow>
   (i + a) * w + (j + b) < h * (w::nat)"
  by (rule flat_index_less) simp_all

lemma conv_at_slice0:
  assumes "wf_tensor X" "shape X = [c, h, w]" "wf_tensor K" "shape K = [c', k_h, k_w]"
    and "ch < c" "ch < c'" "i < Suc h - k_h" "j < Suc w - k_w"
  shows "conv_at (data (slice0 X ch)) 0 w (data (slice0 K ch)) 0 k_h k_w i j
       = conv_at (data X) (ch * (h * w)) w (data K) (ch * (k_h * k_w)) k_h k_w i j"
proof -
  have x: "data (slice0 X ch) ! ((i + a) * w + (j + b)) = data X ! (ch * (h * w) + ((i + a) * w + (j + b)))"
    if "a < k_h" "b < k_w" for a b
    using slice0_nth [OF assms(1,2,5), of "(i + a) * w + (j + b)"]
      window_index_less [OF assms(7) that(1) assms(8) that(2)] by simp
  have k: "data (slice0 K ch) ! (a * k_w + b) = data K ! (ch * (k_h * k_w) + (a * k_w + b))"
    if "a < k_h" "b < k_w" for a b
    using slice0_nth [OF assms(3,4,6), of "a * k_w + b"] flat_index_less [OF that] by simp
  show ?thesis
    unfolding conv_at_def
    by (intro arg_cong [where f = sum_list] map_cong refl) (simp add: x k)
qed

lemma concat_map_map_cong:
  "(\<And>i j. i < n \<Longrightarrow> j < m \<Longrightarrow> f i j = g i j) \<Longrightarrow>
   concat (map (\<lambda>i. map (\<lambda>j. f i j) [0..<m]) [0..<n]) = concat (map (\<lambda>i. map (\<lambda>j. g i j) [0..<m]) [0..<n])"
  by (intro arg_cong [where f = concat] map_cong refl) simp

lemma mapE_map_Inr:
  "(\<And>x. x \<in> set xs \<Longrightarrow> f (g x) = Inr (r x)) \<Longrightarrow> mapE f (map g xs) = Inr (map r xs)"
  by (induction xs) simp_all

lemma corr2d_multi_in_flat:
  assumes wfX: "wf_tensor X" and shX: "shape X = [c, h, w]"
    and wfK: "wf_tensor K" and shK: "shape K = [c', k_h, k_w]"
    and kh: "k_h \<le> Suc h" and kw: "k_w \<le> Suc w" and m: "0 < min c c'"
  shows "corr2d_multi_in X K =
    Inr \<lparr>shape = [Suc h - k_h, Suc w - k_w], data = multi_in_data X K (min c c') h w k_h k_w\<rparr>"
proof -
  let ?m = "min c c'" and ?h' = "Suc h - k_h" and ?w' = "Suc w - k_w"
  let ?F = "\<lambda>ch i j. conv_at (data X) (ch * (h * w)) w (data K) (ch * (k_h * k_w)) k_h k_w i j"
  let ?R = "\<lambda>ch. \<lparr>shape = [?h', ?w'], data = concat (map (\<lambda>i. map (\<lambda>j. ?F ch i j) [0..<?w']) [0..<?h'])\<rparr>"
  have itX: "iter_tensor X = Inr (map (slice0 X) [0..<c])"
    and itK: "iter_tensor K = Inr (map (slice0 K) [0..<c'])"
    using shX shK by (simp_all add: iter_tensor_def)
  have one: "d2l_corr2d (slice0 X ch) (slice0 K ch) = Inr (?R ch)" if ch: "ch < ?m" for ch
  proof -
    have "shape (slice0 X ch) = [h, w]" "shape (slice0 K ch) = [k_h, k_w]"
      using shX shK by (simp_all add: slice0_shape)
    then have "d2l_corr2d (slice0 X ch) (slice0 K ch) =
      Inr \<lparr>shape = [?h', ?w'],
           data = concat (map (\<lambda>i. map (\<lambda>j.
                    conv_at (data (slice0 X ch)) 0 w (data (slice0 K ch)) 0 k_h k_w i j)
                    [0..<?w']) [0..<?h'])\<rparr>"
      using kh kw by (rule d2l_corr2d_ok)
    moreover have "conv_at (data (slice0 X ch)) 0 w (data (slice0 K ch)) 0 k_h k_w i j = ?F ch i j"
      if "i < ?h'" "j < ?w'" for i j
      using conv_at_slice0 [OF wfX shX wfK shK _ _ that] ch by simp
    ultimately show ?thesis
      using concat_map_map_cong [of ?h' ?w' "\<lambda>i j. conv_at (data (slice0 X ch)) 0 w (data (slice0 K ch)) 0 k_h k_w i j" "?F ch"]
      by simp
  qed
  have mp: "mapE (\<lambda>(x, k). d2l_corr2d x k) (zip (map (slice0 X) [0..<c]) (map (slice0 K) [0..<c']))
            = Inr (map ?R [0..<?m])"
    unfolding zip_map_upt
    by (rule mapE_map_Inr) (simp add: one)
  have ne: "map ?R [0..<?m] \<noteq> []" using m by simp
  have red: "tf_reduce_sum (map ?R [0..<?m]) =
    Inr \<lparr>shape = [?h', ?w'],
         data = map (\<lambda>p. sum_list (map (\<lambda>t. data t ! p) (map ?R [0..<?m]))) [0..<prod_list [?h', ?w']]\<rparr>"
    by (rule tf_reduce_sum_ok [OF ne]) (auto simp: length_concat_map_upt)
  have el: "concat (map (\<lambda>i. map (\<lambda>j. ?F ch i j) [0..<?w']) [0..<?h']) ! (i * ?w' + j) = ?F ch i j"
    if "i < ?h'" "j < ?w'" for ch i j
    using nth_concat_map_upt [of ?h' "\<lambda>i. map (\<lambda>j. ?F ch i j) [0..<?w']" ?w' i j] that by simp
  have "map (\<lambda>p. sum_list (map (\<lambda>t. data t ! p) (map ?R [0..<?m]))) [0..<?h' * ?w']
        = concat (map (\<lambda>i. map (\<lambda>j. sum_list (map (\<lambda>t. data t ! (i * ?w' + j)) (map ?R [0..<?m]))) [0..<?w']) [0..<?h'])"
    by (rule concat_map_map_flat [symmetric])
  also have "\<dots> = multi_in_data X K ?m h w k_h k_w"
    unfolding multi_in_data_def
    by (rule concat_map_map_cong) (simp add: el comp_def)
  finally have dat: "map (\<lambda>p. sum_list (map (\<lambda>t. data t ! p) (map ?R [0..<?m]))) [0..<?h' * ?w']
        = multi_in_data X K ?m h w k_h k_w" .
  show ?thesis
    unfolding corr2d_multi_in_def itX itK bindE_Inr mp red
    using dat by simp
qed





lemma corr2d_multi_in_out_flat:
  assumes wfX: "wf_tensor X" and shX: "shape X = [c, h, w]"
    and wfK: "wf_tensor K" and shK: "shape K = [c_o, c, k_h, k_w]"
    and kh: "k_h \<le> Suc h" and kw: "k_w \<le> Suc w" and c: "0 < c" and co: "0 < c_o"
  shows "corr2d_multi_in_out X K =
    Inr \<lparr>shape = [c_o, Suc h - k_h, Suc w - k_w],
         data = concat (map (\<lambda>o'. multi_in_data X (slice0 K o') c h w k_h k_w) [0..<c_o])\<rparr>"
proof -
  let ?R = "\<lambda>o'. \<lparr>shape = [Suc h - k_h, Suc w - k_w], data = multi_in_data X (slice0 K o') c h w k_h k_w\<rparr>"
  have itK: "iter_tensor K = Inr (map (slice0 K) [0..<c_o])"
    using shK by (simp add: iter_tensor_def)
  have one: "corr2d_multi_in X (slice0 K o') = Inr (?R o')" if "o' < c_o" for o'
  proof -
    have "wf_tensor (slice0 K o')" using wfK shK that by (rule slice0_wf)
    moreover have "shape (slice0 K o') = [c, k_h, k_w]" using shK by (rule slice0_shape)
    ultimately show ?thesis
      using corr2d_multi_in_flat [OF wfX shX _ _ kh kw, of "slice0 K o'" c] c by simp
  qed
  have mp: "mapE (\<lambda>k. corr2d_multi_in X k) (map (slice0 K) [0..<c_o]) = Inr (map ?R [0..<c_o])"
    by (rule mapE_map_Inr) (simp add: one)
  have ne: "map ?R [0..<c_o] \<noteq> []" using co by simp
  have st: "tf_stack (map ?R [0..<c_o]) =
    Inr \<lparr>shape = length (map ?R [0..<c_o]) # [Suc h - k_h, Suc w - k_w],
         data = concat (map data (map ?R [0..<c_o]))\<rparr>"
    by (rule tf_stack_ok [OF ne]) auto
  show ?thesis
    unfolding corr2d_multi_in_out_def itK bindE_Inr mp st
    by (simp add: comp_def)
qed















lemma take_drop_concat_uniform:
  "(\<And>xs. xs \<in> set xss \<Longrightarrow> length xs = p) \<Longrightarrow> i < length xss \<Longrightarrow>
   take p (drop (i * p) (concat xss)) = xss ! i"
proof (induction xss arbitrary: i)
  case Nil
  then show ?case by simp
next
  case (Cons xs xss)
  have len: "length xs = p" using Cons.prems(1) by simp
  show ?case
  proof (cases i)
    case 0
    with len show ?thesis by simp
  next
    case (Suc k)
    with Cons.prems have "take p (drop (k * p) (concat xss)) = xss ! k"
      by (intro Cons.IH) simp_all
    with Suc len show ?thesis by simp
  qed
qed





lemma length_nest4: "length (nest4 a b c d f) = a * (b * (c * d))"
  by (simp add: nest4_def length_concat_map_upt)

lemma nest4_nth:
  assumes "i < a" "j < b" "k < c" "l < d"
  shows "nest4 a b c d f ! (((i * b + j) * c + k) * d + l) = f i j k l"
proof -
  let ?F3 = "\<lambda>i j. concat (map (\<lambda>k. map (\<lambda>l. f i j k l) [0..<d]) [0..<c])"
  let ?F2 = "\<lambda>i. concat (map (\<lambda>j. ?F3 i j) [0..<b])"
  have l3: "length (?F3 i j) = c * d" for i j by (simp add: length_concat_map_upt)
  have l2: "length (?F2 i) = b * (c * d)" for i by (simp add: length_concat_map_upt)
  have kl: "k * d + l < c * d" using assms(3,4) by (rule flat_index_less)
  have jkl: "j * (c * d) + (k * d + l) < b * (c * d)" using assms(2) kl by (rule flat_index_less)
  have ix: "((i * b + j) * c + k) * d + l = i * (b * (c * d)) + (j * (c * d) + (k * d + l))"
    by (simp add: algebra_simps)
  have "nest4 a b c d f ! (((i * b + j) * c + k) * d + l)
      = concat (map ?F2 [0..<a]) ! (i * (b * (c * d)) + (j * (c * d) + (k * d + l)))"
    unfolding ix nest4_def ..
  also have "\<dots> = ?F2 i ! (j * (c * d) + (k * d + l))"
    using l2 assms(1) jkl by (rule nth_concat_map_upt)
  also have "\<dots> = ?F3 i j ! (k * d + l)"
    using l3 assms(2) kl by (rule nth_concat_map_upt)
  also have "\<dots> = map (\<lambda>l. f i j k l) [0..<d] ! l"
    using assms(3,4) by (intro nth_concat_map_upt) simp_all
  also have "\<dots> = f i j k l" using assms(4) by simp
  finally show ?thesis .
qed

lemma nest4_cong:
  "(\<And>i j k l. i < a \<Longrightarrow> j < b \<Longrightarrow> k < c \<Longrightarrow> l < d \<Longrightarrow> f i j k l = g i j k l) \<Longrightarrow>
   nest4 a b c d f = nest4 a b c d g"
  unfolding nest4_def
  by (intro arg_cong [where f = concat] map_cong refl) simp

lemma nest4_row_major:
  assumes "length xs = a * (b * (c * d))"
  shows "nest4 a b c d (\<lambda>i j k l. xs ! (((i * b + j) * c + k) * d + l)) = xs"
proof -
  have e3: "concat (map (\<lambda>k. map (\<lambda>l. xs ! (((i * b + j) * c + k) * d + l)) [0..<d]) [0..<c])
      = map (\<lambda>p. xs ! ((i * b + j) * (c * d) + p)) [0..<c * d]" for i j
  proof -
    have "concat (map (\<lambda>k. map (\<lambda>l. xs ! (((i * b + j) * c + k) * d + l)) [0..<d]) [0..<c])
      = concat (map (\<lambda>k. map (\<lambda>l. xs ! ((i * b + j) * (c * d) + (k * d + l))) [0..<d]) [0..<c])"
      by (simp add: algebra_simps)
    also have "\<dots> = map (\<lambda>p. xs ! ((i * b + j) * (c * d) + p)) [0..<c * d]"
      by (rule concat_map_map_flat)
    finally show ?thesis .
  qed
  have e2: "concat (map (\<lambda>j. map (\<lambda>p. xs ! ((i * b + j) * (c * d) + p)) [0..<c * d]) [0..<b])
      = map (\<lambda>p. xs ! (i * (b * (c * d)) + p)) [0..<b * (c * d)]" for i
  proof -
    have "concat (map (\<lambda>j. map (\<lambda>p. xs ! ((i * b + j) * (c * d) + p)) [0..<c * d]) [0..<b])
      = concat (map (\<lambda>j. map (\<lambda>p. xs ! (i * (b * (c * d)) + (j * (c * d) + p))) [0..<c * d]) [0..<b])"
      by (simp add: algebra_simps)
    also have "\<dots> = map (\<lambda>p. xs ! (i * (b * (c * d)) + p)) [0..<b * (c * d)]"
      by (rule concat_map_map_flat)
    finally show ?thesis .
  qed
  have "nest4 a b c d (\<lambda>i j k l. xs ! (((i * b + j) * c + k) * d + l))
      = concat (map (\<lambda>i. map (\<lambda>p. xs ! (i * (b * (c * d)) + p)) [0..<b * (c * d)]) [0..<a])"
    unfolding nest4_def e3 e2 ..
  also have "\<dots> = map (\<lambda>p. xs ! p) [0..<a * (b * (c * d))]"
    by (rule concat_map_map_flat)
  also have "\<dots> = xs"
    unfolding assms [symmetric] by (rule map_nth)
  finally show ?thesis .
qed

lemma length_swap_mid: "length (swap_mid a b c d xs) = a * (c * (b * d))"
  by (simp add: swap_mid_def length_nest4)

lemma swap_mid_nth:
  "i < a \<Longrightarrow> j < c \<Longrightarrow> k < b \<Longrightarrow> l < d \<Longrightarrow>
   swap_mid a b c d xs ! (((i * c + j) * b + k) * d + l) = xs ! (((i * b + k) * c + j) * d + l)"
  unfolding swap_mid_def by (rule nest4_nth)

lemma swap_mid_swap_mid:
  assumes "length xs = a * (b * (c * d))"
  shows "swap_mid a c b d (swap_mid a b c d xs) = xs"
proof -
  have "swap_mid a c b d (swap_mid a b c d xs)
      = nest4 a b c d (\<lambda>i j k l. swap_mid a b c d xs ! (((i * c + k) * b + j) * d + l))"
    by (simp add: swap_mid_def)
  also have "\<dots> = nest4 a b c d (\<lambda>i j k l. xs ! (((i * b + j) * c + k) * d + l))"
    by (rule nest4_cong) (rule swap_mid_nth)
  also have "\<dots> = xs" using assms by (rule nest4_row_major)
  finally show ?thesis .
qed

lemma sort_0213: "sort [0, 2, 1, 3 :: nat] = [0..<4]"
  by (simp add: upt_rec)

lemma upt4: "[0..<4] = [0, 1, 2, 3 :: nat]"
  by (simp add: upt_rec)

lemma jnp_transpose_0213:
  assumes "shape t = [a, b, c, d]"
  shows "jnp_transpose t [0, 2, 1, 3] = Inr \<lparr>shape = [a, c, b, d], data = swap_mid a b c d (data t)\<rparr>"
proof -
  have "map (\<lambda>idx. data t ! offset [a, b, c, d] (map (\<lambda>k. idx ! index_of [0, 2, 1, 3] k) [0, 1, 2, 3]))
          (indices [a, c, b, d])
      = swap_mid a b c d (data t)"
    by (simp add: swap_mid_def nest4_def map_concat comp_def offset_def)
  then show ?thesis
    by (simp add: jnp_transpose_def assms sort_0213 upt4)
qed

lemma int_neq_m1 [simp]: "int n \<noteq> - 1" "\<not> int n < - 1"
  by linarith+

lemma reshape_infer_4th:
  assumes "0 < h" "0 < s0 * (s1 * nat h)" "prod_list (shape t) mod (s0 * (s1 * nat h)) = 0"
  shows "reshape_gen err zerr t [int s0, int s1, h, - 1]
       = Inr \<lparr>shape = [s0, s1, nat h, prod_list (shape t) div (s0 * (s1 * nat h))], data = data t\<rparr>"
proof -
  have h: "h \<noteq> - 1" "\<not> h < - 1" using assms(1) by simp_all
  show ?thesis
    unfolding reshape_gen_def using h assms(2,3) by (simp add: Let_def)
qed

lemma reshape_infer_1st_3:
  assumes "0 < s2 * s3" "prod_list (shape t) mod (s2 * s3) = 0"
  shows "reshape_gen err zerr t [- 1, int s2, int s3]
       = Inr \<lparr>shape = [prod_list (shape t) div (s2 * s3), s2, s3], data = data t\<rparr>"
  unfolding reshape_gen_def using assms by (simp add: Let_def)

lemma reshape_infer_1st_4:
  assumes "0 < h" "0 < nat h * (s1 * s2)" "prod_list (shape t) mod (nat h * (s1 * s2)) = 0"
  shows "reshape_gen err zerr t [- 1, h, int s1, int s2]
       = Inr \<lparr>shape = [prod_list (shape t) div (nat h * (s1 * s2)), nat h, s1, s2], data = data t\<rparr>"
proof -
  have h: "h \<noteq> - 1" "\<not> h < - 1" using assms(1) by simp_all
  show ?thesis
    unfolding reshape_gen_def using h assms(2,3) by (simp add: Let_def)
qed

lemma reshape_infer_3rd:
  assumes "0 < s0 * s1" "prod_list (shape t) mod (s0 * s1) = 0"
  shows "reshape_gen err zerr t [int s0, int s1, - 1]
       = Inr \<lparr>shape = [s0, s1, prod_list (shape t) div (s0 * s1)], data = data t\<rparr>"
  unfolding reshape_gen_def using assms by (simp add: Let_def)

lemma transpose_qkv_flat:
  assumes sh: "shape X = [B, n, hh * d]" and h: "num_heads self = int hh"
    and pos: "0 < B" "0 < n" "0 < hh" "0 < d"
  shows "transpose_qkv self X = Inr \<lparr>shape = [B * hh, n, d], data = swap_mid B n hh d (data X)\<rparr>"
proof -
  have s0: "shape_at (shape X) 0 = Inr B" and s1: "shape_at (shape X) 1 = Inr n"
    by (simp_all add: sh shape_at_def)
  have d1: "B * (n * (hh * d)) div (B * (n * hh)) = d"
    using pos by (simp add: mult.assoc [symmetric])
  have r1: "jnp_reshape X [int B, int n, num_heads self, - 1]
      = Inr \<lparr>shape = [B, n, hh, d], data = data X\<rparr>"
    unfolding jnp_reshape_def h
    using reshape_infer_4th [of "int hh" B n X TypeError] pos d1 by (simp add: sh)
  have t1: "jnp_transpose \<lparr>shape = [B, n, hh, d], data = data X\<rparr> [0, 2, 1, 3]
      = Inr \<lparr>shape = [B, hh, n, d], data = swap_mid B n hh d (data X)\<rparr>"
    using jnp_transpose_0213 [of "\<lparr>shape = [B, n, hh, d], data = data X\<rparr>" B n hh d] by simp
  define ys where "ys = swap_mid B n hh d (data X)"
  have s2: "shape_at (shape \<lparr>shape = [B, hh, n, d], data = ys\<rparr>) 2 = Inr n"
    and s3: "shape_at (shape \<lparr>shape = [B, hh, n, d], data = ys\<rparr>) 3 = Inr d"
    by (simp_all add: shape_at_def)
  have d2: "B * (hh * (n * d)) div (n * d) = B * hh"
    using pos by (simp add: mult.assoc [symmetric])
  have r2: "jnp_reshape \<lparr>shape = [B, hh, n, d], data = ys\<rparr> [- 1, int n, int d]
      = Inr \<lparr>shape = [B * hh, n, d], data = ys\<rparr>"
    unfolding jnp_reshape_def
    using reshape_infer_1st_3 [of n d "\<lparr>shape = [B, hh, n, d], data = ys\<rparr>" TypeError] pos d2
    by simp
  show ?thesis
    unfolding transpose_qkv_def s0 s1 bindE_Inr r1 t1 ys_def [symmetric] s2 s3 r2 ..
qed

lemma transpose_output_flat:
  assumes sh: "shape Y = [B * hh, n, d]" and h: "num_heads self = int hh"
    and pos: "0 < B" "0 < n" "0 < hh" "0 < d"
  shows "transpose_output self Y = Inr \<lparr>shape = [B, n, hh * d], data = swap_mid B hh n d (data Y)\<rparr>"
proof -
  have s1: "shape_at (shape Y) 1 = Inr n" and s2: "shape_at (shape Y) 2 = Inr d"
    by (simp_all add: sh shape_at_def)
  have d1: "B * hh * (n * d) div (hh * (n * d)) = B"
    using pos by (simp add: mult.assoc)
  have r1: "jnp_reshape Y [- 1, num_heads self, int n, int d]
      = Inr \<lparr>shape = [B, hh, n, d], data = data Y\<rparr>"
    unfolding jnp_reshape_def h
    using reshape_infer_1st_4 [of "int hh" n d Y TypeError] pos d1 by (simp add: sh)
  have t1: "jnp_transpose \<lparr>shape = [B, hh, n, d], data = data Y\<rparr> [0, 2, 1, 3]
      = Inr \<lparr>shape = [B, n, hh, d], data = swap_mid B hh n d (data Y)\<rparr>"
    using jnp_transpose_0213 [of "\<lparr>shape = [B, hh, n, d], data = data Y\<rparr>" B hh n d] by simp
  define ys where "ys = swap_mid B hh n d (data Y)"
  have s0': "shape_at (shape \<lparr>shape = [B, n, hh, d], data = ys\<rparr>) 0 = Inr B"
    and s1': "shape_at (shape \<lparr>shape = [B, n, hh, d], data = ys\<rparr>) 1 = Inr n"
    by (simp_all add: shape_at_def)
  have d2: "B * (n * (hh * d)) div (B * n) = hh * d"
    using pos by (simp add: mult.assoc [symmetric])
  have r2: "jnp_reshape \<lparr>shape = [B, n, hh, d], data = ys\<rparr> [int B, int n, - 1]
      = Inr \<lparr>shape = [B, n, hh * d], data = ys\<rparr>"
    unfolding jnp_reshape_def
    using reshape_infer_3rd [of B n "\<lparr>shape = [B, n, hh, d], data = ys\<rparr>" TypeError] pos d2
    by simp
  show ?thesis
    unfolding transpose_output_def s1 s2 bindE_Inr r1 t1 ys_def [symmetric] s0' s1' r2 ..
qed

lemma concat_concat_map: "concat (concat xsss) = concat (map concat xsss)"
  by (induction xsss) simp_all

lemma concat_concat_flat:
  "concat (map (\<lambda>i. concat (map (\<lambda>j. H i j) [0..<b])) [0..<a])
   = concat (map (\<lambda>p. H (p div b) (p mod b)) [0..<a * b])"
proof -
  have "map (\<lambda>p. H (p div b) (p mod b)) [0..<a * b]
      = concat (map (\<lambda>i. map (\<lambda>j. H ((i * b + j) div b) ((i * b + j) mod b)) [0..<b]) [0..<a])"
    by (rule concat_map_map_flat [symmetric])
  also have "\<dots> = concat (map (\<lambda>i. map (\<lambda>j. H i j) [0..<b]) [0..<a])"
    by (rule concat_map_map_cong) simp
  finally have "concat (map (\<lambda>p. H (p div b) (p mod b)) [0..<a * b])
      = concat (concat (map (\<lambda>i. map (\<lambda>j. H i j) [0..<b]) [0..<a]))" by simp
  also have "\<dots> = concat (map (\<lambda>i. concat (map (\<lambda>j. H i j) [0..<b])) [0..<a])"
    by (simp add: concat_concat_map comp_def)
  finally show ?thesis by simp
qed

lemma div_mod_less: "p < a * b \<Longrightarrow> p div b < a \<and> p mod b < (b::nat)"
  by (cases "b = 0") (simp_all add: less_mult_imp_div_less)

lemma nest4_block:
  assumes p: "p < a * b"
  shows "take (c * d) (drop (p * (c * d)) (nest4 a b c d f))
       = concat (map (\<lambda>k. map (\<lambda>l. f (p div b) (p mod b) k l) [0..<d]) [0..<c])"
proof -
  let ?G = "\<lambda>p. concat (map (\<lambda>k. map (\<lambda>l. f (p div b) (p mod b) k l) [0..<d]) [0..<c])"
  have "nest4 a b c d f = concat (map ?G [0..<a * b])"
    unfolding nest4_def by (rule concat_concat_flat)
  moreover have "take (c * d) (drop (p * (c * d)) (concat (map ?G [0..<a * b]))) = map ?G [0..<a * b] ! p"
    using p by (intro take_drop_concat_uniform) (auto simp: length_concat_map_upt)
  ultimately show ?thesis using p by simp
qed

lemma slice0_transposed:
  assumes wf: "wf_tensor Q" and sh: "shape Q = [B, n, hh * d]" and p: "p < B * hh"
  shows "slice0 \<lparr>shape = [B * hh, n, d], data = swap_mid B n hh d (data Q)\<rparr> p
       = head_of d (p mod hh) (slice0 Q (p div hh))"
proof -
  from p have b: "p div hh < B" and i: "p mod hh < hh" using div_mod_less by blast+
  have el: "data (slice0 Q (p div hh)) ! (r * (hh * d) + (p mod hh * d + l))
          = data Q ! (((p div hh * n + r) * hh + p mod hh) * d + l)" if "r < n" "l < d" for r l
  proof -
    have "p mod hh * d + l < hh * d" using i that(2) by (rule flat_index_less)
    with that(1) have "r * (hh * d) + (p mod hh * d + l) < n * (hh * d)"
      by (rule flat_index_less)
    then have "data (slice0 Q (p div hh)) ! (r * (hh * d) + (p mod hh * d + l))
        = data Q ! (p div hh * prod_list [n, hh * d] + (r * (hh * d) + (p mod hh * d + l)))"
      using wf sh b by (intro slice0_nth) simp_all
    also have "p div hh * prod_list [n, hh * d] + (r * (hh * d) + (p mod hh * d + l))
        = ((p div hh * n + r) * hh + p mod hh) * d + l"
      by (simp add: algebra_simps)
    finally show ?thesis .
  qed
  have "take (n * d) (drop (p * (n * d)) (swap_mid B n hh d (data Q)))
      = concat (map (\<lambda>r. map (\<lambda>l. data Q ! (((p div hh * n + r) * hh + p mod hh) * d + l)) [0..<d]) [0..<n])"
    unfolding swap_mid_def using p by (rule nest4_block)
  also have "\<dots> = concat (map (\<lambda>r. map (\<lambda>l.
        data (slice0 Q (p div hh)) ! (r * (hh * d) + (p mod hh * d + l))) [0..<d]) [0..<n])"
    by (rule concat_map_map_cong) (simp add: el)
  finally show ?thesis
    using sh by (simp add: slice0_def [of "\<lparr>shape = [B * hh, n, d], data = swap_mid B n hh d (data Q)\<rparr>"]
        head_of_def slice0_shape [OF sh])
qed

lemma slice0_repeated:
  assumes wf: "wf_tensor vl" and sh: "shape vl = B # s" and p: "p < B * hh"
  shows "slice0 \<lparr>shape = (B * hh) # s,
                 data = concat (map (\<lambda>i. concat (replicate hh (data (slice0 vl i)))) [0..<B])\<rparr> p
       = slice0 vl (p div hh)"
proof -
  from p have b: "p div hh < B" using div_mod_less by blast
  have rep: "replicate hh x = map (\<lambda>j. x) [0..<hh]" for x :: "'a list"
    by (simp add: map_replicate_const)
  have len: "length (data (slice0 vl i)) = prod_list s" if "i < B" for i
    using slice0_wf [OF wf sh that] slice0_shape [OF sh, of i] by (simp add: wf_tensor_def)
  have "concat (map (\<lambda>i. concat (replicate hh (data (slice0 vl i)))) [0..<B])
      = concat (map (\<lambda>p. data (slice0 vl (p div hh))) [0..<B * hh])"
    unfolding rep by (rule concat_concat_flat)
  moreover have "take (prod_list s) (drop (p * prod_list s)
        (concat (map (\<lambda>p. data (slice0 vl (p div hh))) [0..<B * hh])))
      = map (\<lambda>p. data (slice0 vl (p div hh))) [0..<B * hh] ! p"
  proof (rule take_drop_concat_uniform)
    fix xs assume "xs \<in> set (map (\<lambda>p. data (slice0 vl (p div hh))) [0..<B * hh])"
    then obtain q where "q < B * hh" "xs = data (slice0 vl (q div hh))" by auto
    then show "length xs = prod_list s" using len div_mod_less by blast
  qed (use p in simp)
  ultimately show ?thesis
    using p sh
    by (simp add: slice0_def [of "\<lparr>shape = (B * hh) # s,
                 data = concat (map (\<lambda>p. data (slice0 vl (p div hh))) [0..<B * hh])\<rparr>"]
        slice0_shape [OF sh])
qed

lemma mapE_cong: "(\<And>x. x \<in> set xs \<Longrightarrow> f x = g x) \<Longrightarrow> mapE f xs = mapE g xs"
  by (induction xs) simp_all

lemma Dense_call_ok:
  assumes "shape X = [B, n, d_in]" "shape (kernel D) = [d_in, f]"
    and "ub \<Longrightarrow> map_option shape (dense_bias D) = Some [f]"
  shows "\<exists>Y. Dense_call f ub D X = Inr Y \<and> shape Y = [B, n, f] \<and> wf_tensor Y"
  using assms by (cases ub) (simp_all add: Dense_call_def wf_tensor_def length_concat_map_upt)

lemma jnp_repeat_ok:
  assumes "shape vl = B # s"
  shows "jnp_repeat vl (int hh)
       = Inr \<lparr>shape = (B * hh) # s,
              data = concat (map (\<lambda>i. concat (replicate hh (data (slice0 vl i)))) [0..<B])\<rparr>"
  using assms by (simp add: jnp_repeat_def)

lemma batch_of_ok:
  "(\<And>t. t \<in> set ts \<Longrightarrow> shape t = s) \<Longrightarrow>
   batch_of ts s = Inr \<lparr>shape = length ts # s, data = concat (map data ts)\<rparr>"
  by (simp add: batch_of_def list_all_iff)

lemma DotProductAttention_unfold:
  assumes "shape Q = [b, n, d]" "shape K = [b, m, d]" "shape V = [b, m, d_v]"
    and "case vl of None \<Rightarrow> True | Some t \<Rightarrow> shape t = [b] \<or> shape t = [b, n]"
  shows "DotProductAttention att training Q K V vl =
     bindE (mapE (\<lambda>p. att training (slice0 Q p) (slice0 K p) (slice0 V p)
                        (map_option (\<lambda>vl. slice0 vl p) vl)) [0..<b]) (\<lambda>rs.
     bindE (batch_of (map fst rs) [n, d_v]) (\<lambda>output.
     bindE (batch_of (map snd rs) [n, m]) (\<lambda>attention_weights.
     Inr (output, attention_weights))))"
  using assms by (simp add: DotProductAttention_def)

lemma transposed_batch_data:
  assumes len: "length os = B * hh"
    and each: "\<And>t. t \<in> set os \<Longrightarrow> length (data t) = n * d"
  shows "swap_mid B hh n d (concat (map data os))
       = nest4 B n hh d (\<lambda>b r i l. data (os ! (b * hh + i)) ! (r * d + l))"
  unfolding swap_mid_def
proof (rule nest4_cong)
  fix b r i l assume b: "b < B" and r: "r < n" and i: "i < hh" and l: "l < d"
  have p: "b * hh + i < length (map data os)" using b i len by (simp add: flat_index_less)
  have q: "r * d + l < n * d" using r l by (rule flat_index_less)
  have ix: "((b * hh + i) * n + r) * d + l = (b * hh + i) * (n * d) + (r * d + l)"
    by (simp add: algebra_simps)
  have "concat (map data os) ! (((b * hh + i) * n + r) * d + l)
      = concat (map data os) ! ((b * hh + i) * (n * d) + (r * d + l))" unfolding ix ..
  also have "\<dots> = map data os ! (b * hh + i) ! (r * d + l)"
    using each p q by (intro nth_concat_uniform) auto
  also have "\<dots> = data (os ! (b * hh + i)) ! (r * d + l)"
    using p by simp
  finally show "concat (map data os) ! (((b * hh + i) * n + r) * d + l)
      = data (os ! (b * hh + i)) ! (r * d + l)" .
qed

lemma bindE_assoc: "bindE (bindE m f) g = bindE m (\<lambda>x. bindE (f x) g)"
  by (cases m) simp_all

lemma example_pooling_ok:
  assumes "shape q = [n, d]" "shape k = [m, d]" "shape v = [m, d_v]"
  shows "\<exists>o' w. example_pooling training q k v vl = Inr (o', w) \<and>
           shape o' = [n, d_v] \<and> wf_tensor o' \<and> shape w = [n, m] \<and> wf_tensor w"
  using assms
  by (simp add: example_pooling_def Let_def wf_tensor_def length_concat_map_upt)

lemma example_pooling_shapes: "pooling_shapes example_pooling"
  unfolding pooling_shapes_def
proof (intro allI impI, elim conjE)
  fix training o' w n d m d_v and q k v :: "int tensor" and vl :: "nat tensor option"
  assume "shape q = [n, d]" "shape k = [m, d]" "shape v = [m, d_v]"
    and r: "example_pooling training q k v vl = Inr (o', w)"
  from example_pooling_ok [OF this(1,2,3), of training vl] r
  show "shape o' = [n, d_v] \<and> wf_tensor o' \<and> shape w = [n, m] \<and> wf_tensor w" by auto
qed

lemma example_attention_shapes: "attention_shapes (DotProductAttention example_pooling)"
  unfolding attention_shapes_def
proof (intro allI impI, elim conjE)
  fix training b n m d d_v and Q K V :: "int tensor" and vl :: "nat tensor option"
  assume Q: "shape Q = [b, n, d]" and K: "shape K = [b, m, d]" and V: "shape V = [b, m, d_v]"
    and vl: "case vl of None \<Rightarrow> True | Some t \<Rightarrow> shape t = [b] \<or> shape t = [b, n]"
  let ?f = "\<lambda>p. example_pooling training (slice0 Q p) (slice0 K p) (slice0 V p)
                        (map_option (\<lambda>vl. slice0 vl p) vl)"
  have "\<forall>p. \<exists>r. ?f p = Inr r \<and> shape (fst r) = [n, d_v] \<and> wf_tensor (fst r) \<and> shape (snd r) = [n, m]"
  proof
    fix p
    from example_pooling_ok [of "slice0 Q p" n d "slice0 K p" m "slice0 V p" d_v training
        "map_option (\<lambda>vl. slice0 vl p) vl"]
    show "\<exists>r. ?f p = Inr r \<and> shape (fst r) = [n, d_v] \<and> wf_tensor (fst r) \<and> shape (snd r) = [n, m]"
      by (auto simp: slice0_shape [OF Q] slice0_shape [OF K] slice0_shape [OF V])
  qed
  then obtain R where R: "\<And>p. ?f p = Inr (R p)" "\<And>p. shape (fst (R p)) = [n, d_v]"
    "\<And>p. wf_tensor (fst (R p))" "\<And>p. shape (snd (R p)) = [n, m]" by metis
  have mp: "mapE ?f [0..<b] = Inr (map R [0..<b])"
    using mapE_Inr_map [of "[0..<b]" ?f R] R(1) by simp
  have bo: "batch_of (map fst (map R [0..<b])) [n, d_v]
      = Inr \<lparr>shape = length (map fst (map R [0..<b])) # [n, d_v],
             data = concat (map data (map fst (map R [0..<b])))\<rparr>"
    by (rule batch_of_ok) (auto simp: R(2))
  have bw: "batch_of (map snd (map R [0..<b])) [n, m]
      = Inr \<lparr>shape = length (map snd (map R [0..<b])) # [n, m],
             data = concat (map data (map snd (map R [0..<b])))\<rparr>"
    by (rule batch_of_ok) (auto simp: R(4))
  have len: "length (concat (map data (map fst (map R [0..<b])))) = b * (n * d_v)"
    using R(2,3) by (simp add: comp_def length_concat_map_upt wf_tensor_def)
  show "\<exists>O' W. DotProductAttention example_pooling training Q K V vl = Inr (O', W) \<and>
          shape O' = [b, n, d_v] \<and> wf_tensor O'"
    unfolding DotProductAttention_unfold [OF Q K V vl] mp bindE_Inr bo bw
    using len by (simp add: wf_tensor_def)
qed

section \<open>Multi-channel cross-correlation: the properties\<close>











text \<open>
  C10 (as amended: at least one input and one output channel). For an input of shape
  \<open>(c_i, h, w)\<close> with \<open>c_i \<ge> 1\<close> and a kernel window with \<open>k_h \<le> h\<close> and \<open>k_w \<le> w\<close>:
  \<open>corr2d_multi_in\<close> on a kernel of shape \<open>(c_i, k_h, k_w)\<close> returns a tensor of shape
  \<open>(h - k_h + 1, w - k_w + 1)\<close>, and \<open>corr2d_multi_in_out\<close> on a kernel of shape
  \<open>(c_o, c_i, k_h, k_w)\<close> with \<open>c_o \<ge> 1\<close> returns a tensor of shape
  \<open>(c_o, h - k_h + 1, w - k_w + 1)\<close>, which is \<open>(c_o, h, w)\<close> for a 1x1 kernel.
\<close>

theorem corr2d_output_shapes:
  assumes "wf_tensor X" "shape X = [c_i, h, w]" "k_h \<le> h" "k_w \<le> w" "0 < c_i"
    and "wf_tensor K" "shape K = [c_i, k_h, k_w]"
    and "wf_tensor K'" "shape K' = [c_o, c_i, k_h, k_w]" "0 < c_o"
  shows "(\<exists>Y. corr2d_multi_in X K = Inr Y \<and> shape Y = [h - k_h + 1, w - k_w + 1]) \<and>
         (\<exists>Y. corr2d_multi_in_out X K' = Inr Y \<and> shape Y = [c_o, h - k_h + 1, w - k_w + 1] \<and>
              (k_h = 1 \<and> k_w = 1 \<longrightarrow> shape Y = [c_o, h, w]))"
proof -
  have sh: "h - k_h + 1 = Suc h - k_h" "w - k_w + 1 = Suc w - k_w"
    using assms(3,4) by simp_all
  have "corr2d_multi_in X K =
    Inr \<lparr>shape = [Suc h - k_h, Suc w - k_w], data = multi_in_data X K (min c_i c_i) h w k_h k_w\<rparr>"
    using assms by (intro corr2d_multi_in_flat) simp_all
  moreover have "corr2d_multi_in_out X K' =
    Inr \<lparr>shape = [c_o, Suc h - k_h, Suc w - k_w],
         data = concat (map (\<lambda>o'. multi_in_data X (slice0 K' o') c_i h w k_h k_w) [0..<c_o])\<rparr>"
    using assms by (intro corr2d_multi_in_out_flat) simp_all
  ultimately show ?thesis
    unfolding sh by auto
qed

theorem corr2d_output_shapes_witness:
  "(\<exists>Y. corr2d_multi_in X_fig K_fig = Inr Y \<and> shape Y = [3 - 2 + 1, 3 - 2 + 1]) \<and>
   (\<exists>Y. corr2d_multi_in_out X_fig K_fig3 = Inr Y \<and> shape Y = [3, 3 - 2 + 1, 3 - 2 + 1] \<and>
        ((2::nat) = 1 \<and> (2::nat) = 1 \<longrightarrow> shape Y = [3, 3, 3]))"
  by (rule corr2d_output_shapes [where c_i = 2 and K = K_fig and K' = K_fig3])
     (simp_all add: X_fig_def K_fig_def K_fig3_def wf_tensor_def)

text \<open>
  With no input channel \<open>corr2d_multi_in\<close> returns a scalar, of shape \<open>()\<close>; with no
  output channel \<open>corr2d_multi_in_out\<close> returns the empty vector, of shape \<open>(0,)\<close>.
\<close>

theorem corr2d_output_shapes_counterexample:
  "map_sum id shape
     (corr2d_multi_in \<lparr>shape = [0, 1, 1], data = ([] :: int list)\<rparr> \<lparr>shape = [0, 1, 1], data = []\<rparr>)
     = Inr [] \<and>
   map_sum id shape
     (corr2d_multi_in_out \<lparr>shape = [1, 1, 1], data = [5 :: int]\<rparr> \<lparr>shape = [0, 1, 1, 1], data = []\<rparr>)
     = Inr [0]"
  by code_simp


section \<open>Multi-head attention: the properties\<close>

text \<open>
  C4 (as amended: no empty axis, heads that divide, valid lengths that fit, and the
  one step between). With the attention primitive pooling every batch item on its
  own, on queries of shape \<open>(B, n, d_q)\<close>, keys of shape \<open>(B, m, d_k)\<close> and values of
  shape \<open>(B, m, d_v)\<close> with \<open>B\<close>, \<open>n\<close>, \<open>m\<close> and \<open>num_hiddens\<close> at least one, a number of heads
  at least one that divides \<open>num_hiddens\<close>, layer parameters that fit and valid lengths
  absent or of shape \<open>(B,)\<close> or \<open>(B, n)\<close>, the result of \<open>__call__\<close>, value or error, is
  the result of \<open>multi_head_formula\<close>: the projections by \<open>W_q\<close>, \<open>W_k\<close>, \<open>W_v\<close>, one
  pooling per head on the head's column block of each projection under the valid
  length of its batch item, the heads side by side, and the projection by \<open>W_o\<close>.
  Between the reshaping and the pooling the code does one more thing: it repeats the
  valid lengths once per head, which is what hands every head the valid length of
  its batch item.
\<close>

theorem multi_head_attention_formula:
  fixes self :: "('a::semiring_0, 'v) MultiHeadAttention"
  assumes att: "attention self = DotProductAttention att" and ps: "pooling_shapes att"
    and q: "shape queries = [B, n, d_q]" and k: "shape keys = [B, m, d_k]"
    and v: "shape values = [B, m, d_v]"
    and pq: "shape (kernel (W_q self)) = [d_q, num_hiddens self]"
    and pk: "shape (kernel (W_k self)) = [d_k, num_hiddens self]"
    and pv: "shape (kernel (W_v self)) = [d_v, num_hiddens self]"
    and po: "shape (kernel (W_o self)) = [num_hiddens self, num_hiddens self]"
    and pb: "bias self \<Longrightarrow> \<forall>D \<in> {W_q self, W_k self, W_v self, W_o self}.
               map_option shape (dense_bias D) = Some [num_hiddens self]"
    and heads: "0 < num_heads self" "nat (num_heads self) dvd num_hiddens self"
    and pos: "0 < B" "0 < n" "0 < m" "0 < num_hiddens self"
    and vl: "case valid_lens of None \<Rightarrow> True
             | Some t \<Rightarrow> wf_tensor t \<and> (shape t = [B] \<or> shape t = [B, n])"
  shows "MultiHeadAttention_call self queries keys values valid_lens training
       = multi_head_formula att self queries keys values valid_lens training"
proof -
  define H where "H = num_hiddens self"
  define hh where "hh = nat (num_heads self)"
  from heads(2) obtain d where Hd: "H = hh * d" unfolding hh_def H_def by (auto simp: dvd_def)
  have h: "num_heads self = int hh" and hh: "0 < hh" using heads(1) by (simp_all add: hh_def)
  have d: "0 < d" using pos(4) Hd H_def by (cases d) simp_all
  have dd: "H div hh = d" using Hd hh by simp
  let ?dense = "\<lambda>W. Dense_call H (bias self) (W self)"
  obtain Q where Q: "?dense W_q queries = Inr Q" "shape Q = [B, n, hh * d]" "wf_tensor Q"
    using Dense_call_ok [OF q, of "W_q self" H "bias self"] pq pb unfolding H_def [symmetric] Hd
    by auto
  obtain K where K: "?dense W_k keys = Inr K" "shape K = [B, m, hh * d]" "wf_tensor K"
    using Dense_call_ok [OF k, of "W_k self" H "bias self"] pk pb unfolding H_def [symmetric] Hd
    by auto
  obtain V where V: "?dense W_v values = Inr V" "shape V = [B, m, hh * d]" "wf_tensor V"
    using Dense_call_ok [OF v, of "W_v self" H "bias self"] pv pb unfolding H_def [symmetric] Hd
    by auto
  define Qt where "Qt = \<lparr>shape = [B * hh, n, d], data = swap_mid B n hh d (data Q)\<rparr>"
  define Kt where "Kt = \<lparr>shape = [B * hh, m, d], data = swap_mid B m hh d (data K)\<rparr>"
  define Vt where "Vt = \<lparr>shape = [B * hh, m, d], data = swap_mid B m hh d (data V)\<rparr>"
  have tq: "transpose_qkv self Q = Inr Qt"
    unfolding Qt_def using Q(2) h pos(1,2) hh d by (rule transpose_qkv_flat)
  have tk: "transpose_qkv self K = Inr Kt"
    unfolding Kt_def using K(2) h pos(1,3) hh d by (rule transpose_qkv_flat)
  have tv: "transpose_qkv self V = Inr Vt"
    unfolding Vt_def using V(2) h pos(1,3) hh d by (rule transpose_qkv_flat)
  define rep where "rep = (\<lambda>t :: 'v tensor. \<lparr>shape = (B * hh) # tl (shape t),
      data = concat (map (\<lambda>i. concat (replicate hh (data (slice0 t i)))) [0..<B])\<rparr>)"
  define vlr where "vlr = map_option rep valid_lens"
  have rp: "(case valid_lens of None \<Rightarrow> Inr None
             | Some t \<Rightarrow> bindE (jnp_repeat t (num_heads self)) (\<lambda>r. Inr (Some r))) = Inr vlr"
  proof (cases valid_lens)
    case None
    then show ?thesis by (simp add: vlr_def)
  next
    case (Some t)
    with vl obtain s where "shape t = B # s" by auto
    from jnp_repeat_ok [OF this, of hh] this show ?thesis
      unfolding h by (simp add: vlr_def rep_def Some)
  qed
  have vlr_ok: "case vlr of None \<Rightarrow> True | Some t \<Rightarrow> shape t = [B * hh] \<or> shape t = [B * hh, n]"
    using vl by (auto simp: vlr_def rep_def split: option.splits)
  define F where "F = (\<lambda>p. att training
      (head_of d (p mod hh) (slice0 Q (p div hh)))
      (head_of d (p mod hh) (slice0 K (p div hh)))
      (head_of d (p mod hh) (slice0 V (p div hh)))
      (map_option (\<lambda>t. slice0 t (p div hh)) valid_lens))"
  have sl: "att training (slice0 Qt p) (slice0 Kt p) (slice0 Vt p) (map_option (\<lambda>t. slice0 t p) vlr) = F p"
    if "p < B * hh" for p
  proof -
    have "slice0 Qt p = head_of d (p mod hh) (slice0 Q (p div hh))"
      unfolding Qt_def using Q(3,2) that by (rule slice0_transposed)
    moreover have "slice0 Kt p = head_of d (p mod hh) (slice0 K (p div hh))"
      unfolding Kt_def using K(3,2) that by (rule slice0_transposed)
    moreover have "slice0 Vt p = head_of d (p mod hh) (slice0 V (p div hh))"
      unfolding Vt_def using V(3,2) that by (rule slice0_transposed)
    moreover have "map_option (\<lambda>t. slice0 t p) vlr = map_option (\<lambda>t. slice0 t (p div hh)) valid_lens"
    proof (cases valid_lens)
      case None
      then show ?thesis by (simp add: vlr_def)
    next
      case (Some t)
      with vl obtain s where s: "shape t = B # s" and wf: "wf_tensor t" by auto
      have "slice0 (rep t) p = slice0 t (p div hh)"
        unfolding rep_def using slice0_repeated [OF wf s that] s by simp
      then show ?thesis by (simp add: vlr_def Some)
    qed
    ultimately show ?thesis by (simp add: F_def)
  qed
  have mp: "mapE (\<lambda>p. att training (slice0 Qt p) (slice0 Kt p) (slice0 Vt p)
                        (map_option (\<lambda>t. slice0 t p) vlr)) [0..<B * hh] = mapE F [0..<B * hh]"
    by (rule mapE_cong) (simp add: sl)
  have dpa: "attention self training Qt Kt Vt vlr =
     bindE (mapE F [0..<B * hh]) (\<lambda>rs.
     bindE (batch_of (map fst rs) [n, d]) (\<lambda>output.
     bindE (batch_of (map snd rs) [n, m]) (\<lambda>attention_weights.
     Inr (output, attention_weights))))"
    unfolding att mp [symmetric]
    by (rule DotProductAttention_unfold) (simp_all add: Qt_def Kt_def Vt_def vlr_ok)
  have lhs: "MultiHeadAttention_call self queries keys values valid_lens training =
     bindE (mapE F [0..<B * hh]) (\<lambda>rs.
     bindE (batch_of (map fst rs) [n, d]) (\<lambda>output.
     bindE (batch_of (map snd rs) [n, m]) (\<lambda>attention_weights.
     bindE (transpose_output self output) (\<lambda>output_concat.
     bindE (?dense W_o output_concat) (\<lambda>out. Inr (out, attention_weights))))))"
    unfolding MultiHeadAttention_call_def H_def [symmetric] Q(1) K(1) V(1) bindE_Inr tq tk tv rp dpa
    by (simp add: bindE_assoc)
  have rhs: "multi_head_formula att self queries keys values valid_lens training =
     bindE (mapE F [0..<B * hh]) (\<lambda>heads.
     bindE (?dense W_o
              \<lparr>shape = [B, n, hh * d],
               data = nest4 B n hh d (\<lambda>b' r i l. data (fst (heads ! (b' * hh + i))) ! (r * d + l))\<rparr>)
       (\<lambda>out. Inr (out, \<lparr>shape = [B * hh, n, m], data = concat (map (\<lambda>(o', w). data w) heads)\<rparr>)))"
    unfolding multi_head_formula_def H_def [symmetric] Q(1) K(1) V(1) bindE_Inr hh_def [symmetric]
    by (simp add: Let_def Q(2) K(2) dd F_def)
  show ?thesis
  proof (cases "mapE F [0..<B * hh]")
    case (Inl e)
    then show ?thesis unfolding lhs rhs by simp
  next
    case (Inr rs)
    from mapE_Inr_D [OF Inr] have len: "length rs = B * hh"
      and el: "\<And>p. p < B * hh \<Longrightarrow> F p = Inr (rs ! p)" by simp_all
    have shapes: "shape (fst r) = [n, d] \<and> wf_tensor (fst r) \<and> shape (snd r) = [n, m]"
      if "r \<in> set rs" for r
    proof -
      from that obtain p where p: "p < B * hh" "r = rs ! p"
        unfolding len [symmetric] by (metis in_set_conv_nth)
      from p(1) have b: "p div hh < B" using div_mod_less by blast
      have "att training
          (head_of d (p mod hh) (slice0 Q (p div hh)))
          (head_of d (p mod hh) (slice0 K (p div hh)))
          (head_of d (p mod hh) (slice0 V (p div hh)))
          (map_option (\<lambda>t. slice0 t (p div hh)) valid_lens) = Inr (fst r, snd r)"
        using el [OF p(1)] p(2) by (simp add: F_def)
      moreover have "shape (head_of d (p mod hh) (slice0 Q (p div hh))) = [n, d]"
        "shape (head_of d (p mod hh) (slice0 K (p div hh))) = [m, d]"
        "shape (head_of d (p mod hh) (slice0 V (p div hh))) = [m, d]"
        by (simp_all add: head_of_def slice0_shape [OF Q(2)] slice0_shape [OF K(2)] slice0_shape [OF V(2)])
      ultimately show ?thesis
        using ps unfolding pooling_shapes_def by blast
    qed
    have bo: "batch_of (map fst rs) [n, d]
        = Inr \<lparr>shape = length (map fst rs) # [n, d], data = concat (map data (map fst rs))\<rparr>"
      by (rule batch_of_ok) (use shapes in force)
    have bw: "batch_of (map snd rs) [n, m]
        = Inr \<lparr>shape = length (map snd rs) # [n, m], data = concat (map data (map snd rs))\<rparr>"
      by (rule batch_of_ok) (use shapes in force)
    have to: "transpose_output self \<lparr>shape = [B * hh, n, d], data = concat (map data (map fst rs))\<rparr>
        = Inr \<lparr>shape = [B, n, hh * d],
               data = swap_mid B hh n d (concat (map data (map fst rs)))\<rparr>"
      using transpose_output_flat [of "\<lparr>shape = [B * hh, n, d], data = concat (map data (map fst rs))\<rparr>"
          B hh n d self] h pos(1,2) hh d by simp
    have "swap_mid B hh n d (concat (map data (map fst rs)))
        = nest4 B n hh d (\<lambda>b r i l. data (map fst rs ! (b * hh + i)) ! (r * d + l))"
    proof (rule transposed_batch_data)
      show "length (map fst rs) = B * hh" using len by simp
      fix t assume "t \<in> set (map fst rs)"
      then obtain r where "r \<in> set rs" "t = fst r" by auto
      with shapes [of r] show "length (data t) = n * d" by (simp add: wf_tensor_def)
    qed
    also have "\<dots> = nest4 B n hh d (\<lambda>b r i l. data (fst (rs ! (b * hh + i))) ! (r * d + l))"
      by (rule nest4_cong) (simp add: len flat_index_less)
    finally have dat: "swap_mid B hh n d (concat (map data (map fst rs)))
        = nest4 B n hh d (\<lambda>b r i l. data (fst (rs ! (b * hh + i))) ! (r * d + l))" .
    have w: "concat (map data (map snd rs)) = concat (map (\<lambda>(o', w). data w) rs)"
      by (simp add: comp_def split_def)
    show ?thesis
      unfolding lhs rhs Inr bindE_Inr bo bw
      using len to dat w by simp
  qed
qed

theorem multi_head_attention_formula_witness:
  "MultiHeadAttention_call example_module example_queries example_keys example_keys
     (Some \<lparr>shape = [1], data = [2]\<rparr>) False
   = multi_head_formula example_pooling example_module example_queries example_keys example_keys
     (Some \<lparr>shape = [1], data = [2]\<rparr>) False \<and>
   multi_head_formula example_pooling example_module example_queries example_keys example_keys
     (Some \<lparr>shape = [1], data = [2]\<rparr>) False
   = Inr (\<lparr>shape = [1, 2, 4], data = [5, 1, 3, 7,  1, 1, 4, 16]\<rparr>,
          \<lparr>shape = [2, 2, 3], data = [1, 2, 0,  1, 0, 0,  2, 3, 0,  6, 4, 0]\<rparr>)"
proof
  show "MultiHeadAttention_call example_module example_queries example_keys example_keys
     (Some \<lparr>shape = [1], data = [2]\<rparr>) False
   = multi_head_formula example_pooling example_module example_queries example_keys example_keys
     (Some \<lparr>shape = [1], data = [2]\<rparr>) False"
  proof (rule multi_head_attention_formula [where B = 1 and n = 2 and m = 3 and d_q = 4
        and d_k = 4 and d_v = 4])
    show "pooling_shapes example_pooling" by (rule example_pooling_shapes)
  qed (simp_all add: example_module_def example_queries_def example_keys_def identity4_def
        wf_tensor_def)
  show "multi_head_formula example_pooling example_module example_queries example_keys example_keys
     (Some \<lparr>shape = [1], data = [2]\<rparr>) False
   = Inr (\<lparr>shape = [1, 2, 4], data = [5, 1, 3, 7,  1, 1, 4, 16]\<rparr>,
          \<lparr>shape = [2, 2, 3], data = [1, 2, 0,  1, 0, 0,  2, 3, 0,  6, 4, 0]\<rparr>)"
    by code_simp
qed

text \<open>
  On an empty batch, without queries, without key-value pairs or without hidden units
  the formula has a value (an empty one) and the call fails, in \<open>transpose_qkv\<close>; on
  valid lengths for two batch items where there is one the formula takes the first
  and the call fails in the attention primitive.
\<close>

theorem multi_head_attention_formula_counterexample:
  "isl (MultiHeadAttention_call example_module \<lparr>shape = [0, 2, 4], data = []\<rparr>
     \<lparr>shape = [0, 3, 4], data = []\<rparr> \<lparr>shape = [0, 3, 4], data = []\<rparr> None False) \<and>
   \<not> isl (multi_head_formula example_pooling example_module \<lparr>shape = [0, 2, 4], data = []\<rparr>
     \<lparr>shape = [0, 3, 4], data = []\<rparr> \<lparr>shape = [0, 3, 4], data = []\<rparr> None False) \<and>
   isl (MultiHeadAttention_call example_module \<lparr>shape = [1, 0, 4], data = []\<rparr>
     example_keys example_keys None False) \<and>
   \<not> isl (multi_head_formula example_pooling example_module \<lparr>shape = [1, 0, 4], data = []\<rparr>
     example_keys example_keys None False) \<and>
   isl (MultiHeadAttention_call example_module example_queries
     \<lparr>shape = [1, 0, 4], data = []\<rparr> \<lparr>shape = [1, 0, 4], data = []\<rparr> None False) \<and>
   \<not> isl (multi_head_formula example_pooling example_module example_queries
     \<lparr>shape = [1, 0, 4], data = []\<rparr> \<lparr>shape = [1, 0, 4], data = []\<rparr> None False) \<and>
   isl (MultiHeadAttention_call
     (example_module\<lparr>num_hiddens := 0,
        W_q := \<lparr>kernel = \<lparr>shape = [0, 0], data = []\<rparr>, dense_bias = None\<rparr>,
        W_k := \<lparr>kernel = \<lparr>shape = [0, 0], data = []\<rparr>, dense_bias = None\<rparr>,
        W_v := \<lparr>kernel = \<lparr>shape = [0, 0], data = []\<rparr>, dense_bias = None\<rparr>,
        W_o := \<lparr>kernel = \<lparr>shape = [0, 0], data = []\<rparr>, dense_bias = None\<rparr>\<rparr>)
     \<lparr>shape = [1, 2, 0], data = []\<rparr> \<lparr>shape = [1, 3, 0], data = []\<rparr>
     \<lparr>shape = [1, 3, 0], data = []\<rparr> None False) \<and>
   \<not> isl (multi_head_formula example_pooling
     (example_module\<lparr>num_hiddens := 0,
        W_q := \<lparr>kernel = \<lparr>shape = [0, 0], data = []\<rparr>, dense_bias = None\<rparr>,
        W_k := \<lparr>kernel = \<lparr>shape = [0, 0], data = []\<rparr>, dense_bias = None\<rparr>,
        W_v := \<lparr>kernel = \<lparr>shape = [0, 0], data = []\<rparr>, dense_bias = None\<rparr>,
        W_o := \<lparr>kernel = \<lparr>shape = [0, 0], data = []\<rparr>, dense_bias = None\<rparr>\<rparr>)
     \<lparr>shape = [1, 2, 0], data = []\<rparr> \<lparr>shape = [1, 3, 0], data = []\<rparr>
     \<lparr>shape = [1, 3, 0], data = []\<rparr> None False) \<and>
   isl (MultiHeadAttention_call example_module example_queries example_keys example_keys
     (Some \<lparr>shape = [2], data = [1, 1]\<rparr>) False) \<and>
   \<not> isl (multi_head_formula example_pooling example_module example_queries example_keys
     example_keys (Some \<lparr>shape = [2], data = [1, 1]\<rparr>) False)"
  by code_simp

text \<open>
  C5 (as amended: no empty axis). For a tensor of shape \<open>(batch_size, n, num_hiddens)\<close>
  with \<open>batch_size\<close>, \<open>n\<close>, \<open>num_hiddens\<close> and \<open>num_heads\<close> at least one and \<open>num_heads\<close>
  dividing \<open>num_hiddens\<close>, \<open>transpose_qkv\<close> returns a tensor of shape
  \<open>(batch_size * num_heads, n, num_hiddens / num_heads)\<close> and \<open>transpose_output\<close> of it
  is the original tensor.
\<close>

theorem transpose_round_trip:
  assumes "wf_tensor X" "shape X = [batch_size, n, H]"
    and "0 < num_heads self" "nat (num_heads self) dvd H"
    and "0 < batch_size" "0 < n" "0 < H"
  shows "\<exists>Y. transpose_qkv self X = Inr Y \<and>
           shape Y = [batch_size * nat (num_heads self), n, H div nat (num_heads self)] \<and>
           transpose_output self Y = Inr X"
proof -
  define hh where "hh = nat (num_heads self)"
  from assms(4) obtain d where H: "H = hh * d" unfolding hh_def by (auto simp: dvd_def)
  have h: "num_heads self = int hh" and hh: "0 < hh" using assms(3) by (simp_all add: hh_def)
  have d: "0 < d" using assms(7) H by (cases d) simp_all
  let ?Y = "\<lparr>shape = [batch_size * hh, n, d], data = swap_mid batch_size n hh d (data X)\<rparr>"
  have q: "transpose_qkv self X = Inr ?Y"
    using assms(2) h assms(5,6) hh d unfolding H by (rule transpose_qkv_flat)
  have o: "transpose_output self ?Y
      = Inr \<lparr>shape = [batch_size, n, hh * d],
             data = swap_mid batch_size hh n d (swap_mid batch_size n hh d (data X))\<rparr>"
    using transpose_output_flat [of ?Y batch_size hh n d self] h assms(5,6) hh d by simp
  have len: "length (data X) = batch_size * (n * (hh * d))"
    using assms(1,2) H by (simp add: wf_tensor_def)
  have "swap_mid batch_size hh n d (swap_mid batch_size n hh d (data X)) = data X"
    using len by (rule swap_mid_swap_mid)
  with o have "transpose_output self ?Y = Inr X"
    using assms(2) H by simp
  moreover have "shape ?Y = [batch_size * hh, n, H div hh]" using H hh by simp
  ultimately show ?thesis using q unfolding hh_def by blast
qed

theorem transpose_round_trip_witness:
  "\<exists>Y. transpose_qkv example_module example_keys = Inr Y \<and>
       shape Y = [1 * nat (num_heads example_module), 3, 4 div nat (num_heads example_module)] \<and>
       transpose_output example_module Y = Inr example_keys"
  by (rule transpose_round_trip)
     (simp_all add: example_module_def example_keys_def wf_tensor_def)

text \<open>
  On an empty batch, an empty sequence or no hidden unit the inferred dimension \<open>-1\<close> of
  a reshape has nothing to be inferred from, and \<open>transpose_qkv\<close> fails; a negative
  number of heads is no dimension.
\<close>

theorem transpose_round_trip_counterexample:
  "isl (transpose_qkv example_module \<lparr>shape = [0, 3, 4], data = ([] :: int list)\<rparr>) \<and>
   isl (transpose_qkv example_module \<lparr>shape = [1, 0, 4], data = ([] :: int list)\<rparr>) \<and>
   isl (transpose_qkv example_module \<lparr>shape = [1, 3, 0], data = ([] :: int list)\<rparr>) \<and>
   isl (transpose_qkv (example_module\<lparr>num_heads := - 2\<rparr>) example_keys)"
  by code_simp

text \<open>
  C6 (as amended: no empty axis). For queries of shape
  \<open>(batch_size, num_queries, num_hiddens)\<close>, keys and values of shape
  \<open>(batch_size, num_kvpairs, num_hiddens)\<close>, all four sizes and \<open>num_heads\<close> at least one,
  \<open>num_heads\<close> dividing \<open>num_hiddens\<close>, layer parameters that fit, valid lengths absent or
  of shape \<open>(batch_size,)\<close> or \<open>(batch_size, num_queries)\<close>, and an attention primitive
  that returns an output of shape \<open>(b, n, d_v)\<close>, the call succeeds and its first output
  has shape \<open>(batch_size, num_queries, num_hiddens)\<close>.
\<close>

theorem multi_head_attention_output_shape:
  fixes self :: "('a::semiring_0, 'v) MultiHeadAttention"
  assumes att: "attention_shapes (attention self)"
    and q: "shape queries = [batch_size, num_queries, num_hiddens self]"
    and k: "shape keys = [batch_size, num_kvpairs, num_hiddens self]"
    and v: "shape values = [batch_size, num_kvpairs, num_hiddens self]"
    and pw: "\<forall>D \<in> {W_q self, W_k self, W_v self, W_o self}.
               shape (kernel D) = [num_hiddens self, num_hiddens self]"
    and pb: "bias self \<Longrightarrow> \<forall>D \<in> {W_q self, W_k self, W_v self, W_o self}.
               map_option shape (dense_bias D) = Some [num_hiddens self]"
    and heads: "0 < num_heads self" "nat (num_heads self) dvd num_hiddens self"
    and pos: "0 < batch_size" "0 < num_queries" "0 < num_kvpairs" "0 < num_hiddens self"
    and vl: "case valid_lens of None \<Rightarrow> True
             | Some t \<Rightarrow> shape t = [batch_size] \<or> shape t = [batch_size, num_queries]"
  shows "\<exists>out w. MultiHeadAttention_call self queries keys values valid_lens training = Inr (out, w) \<and>
           shape out = [batch_size, num_queries, num_hiddens self]"
proof -
  define H where "H = num_hiddens self"
  define hh where "hh = nat (num_heads self)"
  define B where "B = batch_size"
  define n where "n = num_queries"
  define m where "m = num_kvpairs"
  note q = q [folded H_def B_def n_def] and k = k [folded H_def B_def m_def]
    and v = v [folded H_def B_def m_def]
  from heads(2) obtain d where Hd: "H = hh * d" unfolding hh_def H_def by (auto simp: dvd_def)
  have h: "num_heads self = int hh" and hh: "0 < hh" using heads(1) by (simp_all add: hh_def)
  have d: "0 < d" using pos(4) Hd H_def by (cases d) simp_all
  have B: "0 < B" and n: "0 < n" and m: "0 < m" using pos by (simp_all add: B_def n_def m_def)
  have kq: "shape (kernel (W_q self)) = [H, H]" and kk: "shape (kernel (W_k self)) = [H, H]"
    and kv: "shape (kernel (W_v self)) = [H, H]" and ko: "shape (kernel (W_o self)) = [H, H]"
    using pw by (simp_all add: H_def)
  have bq: "bias self \<Longrightarrow> map_option shape (dense_bias (W_q self)) = Some [H]"
    and bk: "bias self \<Longrightarrow> map_option shape (dense_bias (W_k self)) = Some [H]"
    and bv: "bias self \<Longrightarrow> map_option shape (dense_bias (W_v self)) = Some [H]"
    and bo: "bias self \<Longrightarrow> map_option shape (dense_bias (W_o self)) = Some [H]"
    using pb by (simp_all add: H_def)
  let ?dense = "\<lambda>W. Dense_call H (bias self) (W self)"
  from Dense_call_ok [OF q kq bq]
  obtain Q where Q: "?dense W_q queries = Inr Q" "shape Q = [B, n, hh * d]"
    unfolding Hd by blast
  from Dense_call_ok [OF k kk bk]
  obtain K where K: "?dense W_k keys = Inr K" "shape K = [B, m, hh * d]"
    unfolding Hd by blast
  from Dense_call_ok [OF v kv bv]
  obtain V where V: "?dense W_v values = Inr V" "shape V = [B, m, hh * d]"
    unfolding Hd by blast
  define Qt where "Qt = \<lparr>shape = [B * hh, n, d], data = swap_mid B n hh d (data Q)\<rparr>"
  define Kt where "Kt = \<lparr>shape = [B * hh, m, d], data = swap_mid B m hh d (data K)\<rparr>"
  define Vt where "Vt = \<lparr>shape = [B * hh, m, d], data = swap_mid B m hh d (data V)\<rparr>"
  have tq: "transpose_qkv self Q = Inr Qt"
    unfolding Qt_def using Q(2) h B n hh d by (rule transpose_qkv_flat)
  have tk: "transpose_qkv self K = Inr Kt"
    unfolding Kt_def using K(2) h B m hh d by (rule transpose_qkv_flat)
  have tv: "transpose_qkv self V = Inr Vt"
    unfolding Vt_def using V(2) h B m hh d by (rule transpose_qkv_flat)
  have wft: "wf_tensor Qt" "wf_tensor Kt" "wf_tensor Vt"
    by (simp_all add: Qt_def Kt_def Vt_def wf_tensor_def length_swap_mid)
  obtain vlr where rp: "(case valid_lens of None \<Rightarrow> Inr None
             | Some t \<Rightarrow> bindE (jnp_repeat t (num_heads self)) (\<lambda>r. Inr (Some r))) = Inr vlr"
    and vlr: "case vlr of None \<Rightarrow> True | Some t \<Rightarrow> shape t = [B * hh] \<or> shape t = [B * hh, n]"
  proof (cases valid_lens)
    case None
    then show ?thesis using that [of None] by simp
  next
    case (Some t)
    with vl obtain s where s: "shape t = B # s" "s = [] \<or> s = [n]" by (auto simp: B_def n_def)
    have "jnp_repeat t (num_heads self) = Inr \<lparr>shape = (B * hh) # s,
              data = concat (map (\<lambda>i. concat (replicate hh (data (slice0 t i)))) [0..<B])\<rparr>"
      unfolding h using s(1) by (rule jnp_repeat_ok)
    then show ?thesis
      using that [of "Some \<lparr>shape = (B * hh) # s,
              data = concat (map (\<lambda>i. concat (replicate hh (data (slice0 t i)))) [0..<B])\<rparr>"] s(2)
      by (auto simp: Some)
  qed
  have shs: "shape Qt = [B * hh, n, d]" "shape Kt = [B * hh, m, d]" "shape Vt = [B * hh, m, d]"
    by (simp_all add: Qt_def Kt_def Vt_def)
  have "\<exists>O' W. attention self training Qt Kt Vt vlr = Inr (O', W) \<and>
          shape O' = [B * hh, n, d] \<and> wf_tensor O'"
    using att [unfolded attention_shapes_def, rule_format, of Qt "B * hh" n d Kt m Vt d vlr training]
      shs wft vlr by blast
  then obtain O' W where a: "attention self training Qt Kt Vt vlr = Inr (O', W)"
    and O': "shape O' = [B * hh, n, d]" by blast
  have to: "transpose_output self O' = Inr \<lparr>shape = [B, n, hh * d], data = swap_mid B hh n d (data O')\<rparr>"
    using O' h B n hh d by (rule transpose_output_flat)
  have "shape \<lparr>shape = [B, n, hh * d], data = swap_mid B hh n d (data O')\<rparr> = [B, n, H]"
    by (simp add: Hd)
  from Dense_call_ok [OF this ko bo]
  obtain out where out: "?dense W_o \<lparr>shape = [B, n, hh * d], data = swap_mid B hh n d (data O')\<rparr> = Inr out"
    "shape out = [B, n, H]"
    by blast
  have "MultiHeadAttention_call self queries keys values valid_lens training = Inr (out, W)"
    unfolding MultiHeadAttention_call_def H_def [symmetric] Q(1) K(1) V(1) bindE_Inr tq tk tv rp a
      prod.case to out(1) ..
  then show ?thesis using out(2) by (simp add: B_def n_def H_def)
qed

theorem multi_head_attention_output_shape_witness:
  "\<exists>out w. MultiHeadAttention_call example_module example_queries example_keys example_keys
              (Some \<lparr>shape = [1], data = [2]\<rparr>) False = Inr (out, w) \<and>
           shape out = [1, 2, num_hiddens example_module]"
proof (rule multi_head_attention_output_shape [where num_kvpairs = 3])
  show "attention_shapes (attention example_module)"
    using example_attention_shapes by (simp add: example_module_def)
qed (simp_all add: example_module_def example_queries_def example_keys_def identity4_def)

text \<open>
  On an empty batch, without queries, without key-value pairs or without hidden units
  the call fails in \<open>transpose_qkv\<close>; valid lengths for two batch items where there is
  one are refused by the attention primitive.
\<close>

theorem multi_head_attention_output_shape_counterexample:
  "isl (MultiHeadAttention_call example_module \<lparr>shape = [0, 2, 4], data = []\<rparr>
     \<lparr>shape = [0, 3, 4], data = []\<rparr> \<lparr>shape = [0, 3, 4], data = []\<rparr> None False) \<and>
   isl (MultiHeadAttention_call example_module \<lparr>shape = [1, 0, 4], data = []\<rparr>
     example_keys example_keys None False) \<and>
   isl (MultiHeadAttention_call example_module example_queries
     \<lparr>shape = [1, 0, 4], data = []\<rparr> \<lparr>shape = [1, 0, 4], data = []\<rparr> None False) \<and>
   isl (MultiHeadAttention_call
     (example_module\<lparr>num_hiddens := 0,
        W_q := \<lparr>kernel = \<lparr>shape = [0, 0], data = []\<rparr>, dense_bias = None\<rparr>\<rparr>)
     \<lparr>shape = [1, 2, 0], data = []\<rparr> \<lparr>shape = [1, 3, 0], data = []\<rparr>
     \<lparr>shape = [1, 3, 0], data = []\<rparr> None False) \<and>
   isl (MultiHeadAttention_call example_module example_queries example_keys example_keys
     (Some \<lparr>shape = [2], data = [1, 1]\<rparr>) False)"
  by code_simp


end
